theory Spec2Isabelle
  imports Main
begin

section \<open>The host: what setup.js sees of Node and of the machine\<close>

text \<open>
  setup.js is a straight-line script. Everything it does goes through four doors of the
  Node runtime: the clock (\<open>new Date().toISOString()\<close>), child processes
  (\<open>execSync\<close>), the synchronous \<open>fs\<close> calls, and the three output channels (the write
  stream on debug.log, \<open>console.log\<close>, \<open>console.error\<close>). The script is modelled by
  explicit state passing over a record of what has gone through those doors so far.

  Strings are \<open>char list\<close>; a \<open>char\<close> stands for one code unit (the texts of the script
  are ASCII). The file system is a map from path strings, as the script names them, to the
  kind of node found there. Faults that depend on more than this map (permissions, devices, a
  full disk) are outside the model.
\<close>

datatype node = File | Dir

type_synonym filesystem = "string \<rightharpoonup> node"

text \<open>What a child process did: it exited with code 0 and printed the given standard
  output, or \<open>execSync\<close> threw an error with the given \<open>message\<close> (nonzero exit or a
  failure to spawn).\<close>

datatype exec_result = Completed string | Failed string

text \<open>The effects of the script on the machine, in the order it issues them.\<close>

datatype event =
    Spawn string
  | Mkdir string
  | Rmdir string
  | Unlink string
  | CopyFile string string

text \<open>How the process stops early: \<open>process.exit(n)\<close>, or an exception nobody catches.\<close>

datatype halt = Exit nat | Uncaught string

text \<open>
  The world is everything the script does not decide: the text of the \<open>k\<close>-th reading of
  the clock, what a command line does to the file system and how it ends (it may depend
  on how many effects the run has issued before), the environment variable HOME, the
  directory of the script (\<open>__dirname\<close>), and on which paths and file systems this
  runtime's \<open>fs.rmdirSync(p, { recursive: true })\<close> throws. The last differs between
  the Node releases that can pass the gate: Node 14 and 15 remove whatever is at the path
  and do not throw, Node 16 and later throw ENOTDIR when the path is not a directory,
  and releases that do not know the option throw on a directory that is not empty.
\<close>

record world =
  toISOString :: "nat \<Rightarrow> string"
  child :: "nat \<Rightarrow> string \<Rightarrow> filesystem \<Rightarrow> exec_result \<times> filesystem"
  HOME :: "string option"
  script_dirname :: string
  rmdirSync_throws :: "string \<Rightarrow> filesystem \<Rightarrow> bool"

text \<open>
  \<open>logStream\<close> holds the chunks handed to \<open>logStream.write\<close>, in order (the stream is
  opened with flag \<open>a\<close>, so they are appended to debug.log; when they reach the disk is a
  matter of Node's event loop and is not modelled). \<open>dates\<close> counts the readings of the
  clock, \<open>ended\<close> records \<open>logStream.end()\<close>.
\<close>

record state =
  logStream :: "string list"
  console_log :: "string list"
  console_error :: "string list"
  files :: filesystem
  dates :: nat
  trace :: "event list"
  ended :: bool

type_synonym run = "halt \<times> state + state"

text \<open>Statement after statement: the rest of the script runs only if the process is
  still alive.\<close>

definition and_then :: "run \<Rightarrow> (state \<Rightarrow> run) \<Rightarrow> run" where
  "and_then r k = (case r of Inl h \<Rightarrow> Inl h | Inr s \<Rightarrow> k s)"

section \<open>Logger (setup.js, lines 7 to 23)\<close>

definition newline :: string where
  "newline = [CHR 0x0A]"

definition log :: "world \<Rightarrow> string \<Rightarrow> state \<Rightarrow> state" where
  "log w message s =
     (let timestamp = toISOString w (dates s);
          logMessage = ''['' @ timestamp @ ''] '' @ message @ newline
      in s\<lparr>logStream := logStream s @ [logMessage],
           console_log := console_log s @ [message],
           dates := Suc (dates s)\<rparr>)"

definition logError :: "world \<Rightarrow> string \<Rightarrow> state \<Rightarrow> state" where
  "logError w message s =
     (let timestamp = toISOString w (dates s);
          errorMessage = ''['' @ timestamp @ ''] ERROR: '' @ message @ newline
      in s\<lparr>logStream := logStream s @ [errorMessage],
           console_error := console_error s @ [message],
           dates := Suc (dates s)\<rparr>)"

text \<open>The log entry as the specification words it: a timestamp, a severity and a
  message, written as \<open>[timestamp] \<close>, then \<open>ERROR: \<close> for an error and nothing for an
  informational entry, then the message and the end of the line.\<close>

datatype severity = INFO | ERROR

record LogEntry =
  timestamp :: string
  severity :: severity
  message :: string

definition spec_line :: "LogEntry \<Rightarrow> string" where
  "spec_line e =
     ''['' @ timestamp e @ ''] '' @ (case severity e of INFO \<Rightarrow> [] | ERROR \<Rightarrow> ''ERROR: '')
       @ message e @ newline"

section \<open>Child processes and the command runner (lines 52 to 62)\<close>

definition execSync :: "world \<Rightarrow> string \<Rightarrow> state \<Rightarrow> exec_result \<times> state" where
  "execSync w command s =
     (case child w (length (trace s)) command (files s) of
        (r, fs') \<Rightarrow> (r, s\<lparr>files := fs', trace := trace s @ [Spawn command]\<rparr>))"

definition runCommand :: "world \<Rightarrow> string \<Rightarrow> state \<Rightarrow> run" where
  "runCommand w command s =
     (case execSync w command s of
        (Completed out, s1) \<Rightarrow> Inr (log w (''Command executed: '' @ command) s1)
      | (Failed error_message, s1) \<Rightarrow>
          Inl (Exit 1,
               logError w error_message
                 (logError w (''Error executing command: '' @ command) s1)))"

section \<open>Strings of the JavaScript runtime used by the gate\<close>

text \<open>\<open>String.prototype.trim\<close>: white space and line terminators are removed from both
  ends (those that fit one 8-bit code unit: TAB, LF, VT, FF, CR, SP, NBSP).\<close>

definition js_whitespace :: "char \<Rightarrow> bool" where
  "js_whitespace c =
     (c \<in> {CHR 0x09, CHR 0x0A, CHR 0x0B, CHR 0x0C, CHR 0x0D, CHR 0x20, CHR 0xA0})"

definition trim :: "string \<Rightarrow> string" where
  "trim s = rev (dropWhile js_whitespace (rev (dropWhile js_whitespace s)))"

text \<open>\<open>s.replace(/^v/, '')\<close>: one leading \<open>v\<close> is removed, if there is one.\<close>

fun replace_leading_v :: "string \<Rightarrow> string" where
  "replace_leading_v [] = []"
| "replace_leading_v (c # cs) = (if c = CHR ''v'' then cs else c # cs)"

text \<open>\<open>a < b\<close> on two strings: at the first position where they differ the smaller code
  unit decides; if there is none, a proper prefix is smaller.\<close>

fun js_lt :: "string \<Rightarrow> string \<Rightarrow> bool" where
  "js_lt [] [] = False"
| "js_lt [] (y # ys) = True"
| "js_lt (x # xs) [] = False"
| "js_lt (x # xs) (y # ys) =
     (if x = y then js_lt xs ys else (of_char x :: nat) < of_char y)"

text \<open>The order the specification names: the lexicographic order of strings, over the
  order of code units.\<close>

definition code_unit_less :: "(char \<times> char) set" where
  "code_unit_less = {(a, b). (of_char a :: nat) < of_char b}"

definition lexicographic_less :: "string \<Rightarrow> string \<Rightarrow> bool" where
  "lexicographic_less a b = ((a, b) \<in> lexord code_unit_less)"

section \<open>Prerequisite gate (lines 25 to 50)\<close>

record prereq =
  name :: string
  command :: string
  minVersion :: string

definition prerequisites :: "prereq list" where
  "prerequisites =
     [\<lparr>name = ''Node.js'', command = ''node --version'', minVersion = ''v14.0.0''\<rparr>,
      \<lparr>name = ''npm'', command = ''npm --version'', minVersion = ''6.0.0''\<rparr>,
      \<lparr>name = ''Git'', command = ''git --version'', minVersion = ''2.0.0''\<rparr>]"

definition not_installed_message :: "prereq \<Rightarrow> string" where
  "not_installed_message p =
     name p @ '' is not installed. Please install it and run the script again.''"

definition outdated_message :: "prereq \<Rightarrow> string" where
  "outdated_message p =
     name p @ '' version '' @ minVersion p @ '' or higher is required. Please update ''
       @ name p @ '' and run the script again.''"

definition check_prereq :: "world \<Rightarrow> prereq \<Rightarrow> state \<Rightarrow> run" where
  "check_prereq w p s =
     (case execSync w (command p) s of
        (Failed error_message, s1) \<Rightarrow> Inl (Exit 1, logError w (not_installed_message p) s1)
      | (Completed out, s1) \<Rightarrow>
          (let version = trim out;
               s2 = log w (name p @ '' version: '' @ version) s1;
               currentVersion = replace_leading_v version;
               requiredVersion = replace_leading_v (minVersion p)
           in if js_lt currentVersion requiredVersion
              then Inl (Exit 1, logError w (outdated_message p) s2)
              else Inr s2))"

fun forEach :: "('a \<Rightarrow> state \<Rightarrow> run) \<Rightarrow> 'a list \<Rightarrow> state \<Rightarrow> run" where
  "forEach f [] s = Inr s"
| "forEach f (x # xs) s = and_then (f x s) (forEach f xs)"

definition gate :: "world \<Rightarrow> state \<Rightarrow> run" where
  "gate w s = forEach (check_prereq w) prerequisites s"

section \<open>Paths and the synchronous file system calls\<close>

text \<open>
  \<open>path.join\<close>, as Node implements it for POSIX: the arguments that are not empty are
  joined by the separator and the result is normalised. Normalising cuts the path at its
  separators, drops empty and \<open>.\<close> segments, lets a \<open>..\<close> segment take away the segment
  before it (above the start of a relative path it stays, above the root it is dropped),
  and puts the segments together again, with the leading separator of an absolute path
  and the trailing separator if there was one.
\<close>

fun join_segments :: "string list \<Rightarrow> string" where
  "join_segments [] = []"
| "join_segments [a] = a"
| "join_segments (a # b # rest) = a @ ''/'' @ join_segments (b # rest)"

fun segments_from :: "string \<Rightarrow> string \<Rightarrow> string list" where
  "segments_from cur [] = [cur]"
| "segments_from cur (c # cs) =
     (if c = CHR ''/'' then cur # segments_from [] cs else segments_from (cur @ [c]) cs)"

text \<open>\<open>res\<close> holds the segments kept so far, the last one first.\<close>

fun normalizeString :: "bool \<Rightarrow> string list \<Rightarrow> string list \<Rightarrow> string list" where
  "normalizeString allowAboveRoot res [] = rev res"
| "normalizeString allowAboveRoot res (seg # segs) =
     (if seg = [] \<or> seg = ''.'' then normalizeString allowAboveRoot res segs
      else if seg = ''..'' then
        (case res of
           [] \<Rightarrow>
             normalizeString allowAboveRoot (if allowAboveRoot then [''..''] else []) segs
         | r # rs \<Rightarrow>
             if r \<noteq> ''..'' then normalizeString allowAboveRoot rs segs
             else normalizeString allowAboveRoot
                    (if allowAboveRoot then ''..'' # res else res) segs)
      else normalizeString allowAboveRoot (seg # res) segs)"

definition isAbsolute :: "string \<Rightarrow> bool" where
  "isAbsolute path = (take 1 path = ''/'')"

definition path_normalize :: "string \<Rightarrow> string" where
  "path_normalize path =
     (if path = [] then ''.''
      else
        (let trailingSeparator = (last path = CHR ''/'');
             p = join_segments
                   (normalizeString (\<not> isAbsolute path) [] (segments_from [] path))
         in if p = []
            then (if isAbsolute path then ''/'' else if trailingSeparator then ''./'' else ''.'')
            else (if isAbsolute path then ''/'' else []) @ p
                 @ (if trailingSeparator then ''/'' else [])))"

definition path_join :: "string list \<Rightarrow> string" where
  "path_join args =
     (let joined = join_segments (filter (\<lambda>arg. arg \<noteq> []) args)
      in if joined = [] then ''.'' else path_normalize joined)"

text \<open>The directories above a path, outermost first: every non-empty proper prefix that
  ends just before a separator.\<close>

fun ancestors_from :: "string \<Rightarrow> string \<Rightarrow> string list" where
  "ancestors_from pre [] = []"
| "ancestors_from pre (c # cs) =
     (if c = CHR ''/'' \<and> pre \<noteq> [] then [pre] else []) @ ancestors_from (pre @ [c]) cs"

definition ancestors :: "string \<Rightarrow> string list" where
  "ancestors p = ancestors_from [] p"

text \<open>The directory a path lies in: the text before its last separator.\<close>

definition dirname :: "string \<Rightarrow> string" where
  "dirname p =
     (let d = rev (drop 1 (dropWhile (\<lambda>c. c \<noteq> CHR ''/'') (rev p)))
      in if d \<noteq> [] then d else if take 1 p = ''/'' then ''/'' else ''.'')"

definition existsSync :: "string \<Rightarrow> state \<Rightarrow> bool" where
  "existsSync p s = (files s p \<noteq> None)"

text \<open>\<open>fs.mkdirSync(p, { recursive: true })\<close> makes \<open>p\<close> and every missing directory
  above it; it throws when one of them is there as a file.\<close>

definition mkdirSync_recursive :: "string \<Rightarrow> state \<Rightarrow> run" where
  "mkdirSync_recursive p s =
     (let s1 = s\<lparr>trace := trace s @ [Mkdir p]\<rparr>;
          chain = ancestors p @ [p]
      in if list_ex (\<lambda>q. files s q = Some File) chain
         then Inl (Uncaught ''mkdirSync'', s1)
         else Inr (s1\<lparr>files := (\<lambda>q. if q \<in> set chain then Some Dir else files s q)\<rparr>))"

text \<open>\<open>fs.rmdirSync(p, { recursive: true })\<close>: where this runtime throws, nothing is
  removed and the exception goes up; otherwise whatever is at \<open>p\<close> is removed together
  with everything below it.\<close>

definition below :: "string \<Rightarrow> string \<Rightarrow> bool" where
  "below p q = (take (Suc (length p)) q = p @ ''/'')"

definition rmdirSync_recursive :: "world \<Rightarrow> string \<Rightarrow> state \<Rightarrow> run" where
  "rmdirSync_recursive w p s =
     (if rmdirSync_throws w p (files s)
      then Inl (Uncaught ''rmdirSync'', s\<lparr>trace := trace s @ [Rmdir p]\<rparr>)
      else Inr (s\<lparr>files := (\<lambda>q. if q = p \<or> below p q then None else files s q),
                 trace := trace s @ [Rmdir p]\<rparr>))"

text \<open>\<open>fs.unlinkSync(p)\<close> removes a file and throws when there is no file at \<open>p\<close>.\<close>

definition unlinkSync :: "string \<Rightarrow> state \<Rightarrow> run" where
  "unlinkSync p s =
     (let s1 = s\<lparr>trace := trace s @ [Unlink p]\<rparr>
      in if files s p = Some File
         then Inr (s1\<lparr>files := (files s)(p := None)\<rparr>)
         else Inl (Uncaught ''unlinkSync'', s1))"

text \<open>\<open>fs.copyFileSync(src, dest)\<close> writes \<open>dest\<close>, replacing a file that is there. It
  throws when \<open>src\<close> is not a file, when the directory of \<open>dest\<close> does not exist, and
  when \<open>dest\<close> is a directory.\<close>

definition copyFileSync :: "string \<Rightarrow> string \<Rightarrow> state \<Rightarrow> run" where
  "copyFileSync src dest s =
     (let s1 = s\<lparr>trace := trace s @ [CopyFile src dest]\<rparr>
      in if files s src = Some File \<and> files s (dirname dest) = Some Dir
            \<and> files s dest \<noteq> Some Dir
         then Inr (s1\<lparr>files := (files s)(dest \<mapsto> File)\<rparr>)
         else Inl (Uncaught ''copyFileSync'', s1))"

section \<open>Provisioning steps (lines 64 to 129)\<close>

subsection \<open>Install NeoVim if not already installed\<close>

definition editor_install :: "world \<Rightarrow> state \<Rightarrow> run" where
  "editor_install w s =
     (let s1 = log w ''Checking if NeoVim is installed...'' s
      in case execSync w ''nvim --version'' s1 of
           (Completed out, s2) \<Rightarrow> Inr (log w ''NeoVim is already installed.'' s2)
         | (Failed error_message, s2) \<Rightarrow>
             and_then (runCommand w ''sudo apt-get install neovim''
                         (log w ''Installing NeoVim...'' s2))
               (\<lambda>s3. Inr (log w ''NeoVim installation completed.'' s3)))"

subsection \<open>Install JetBrains Mono Nerd Font\<close>

definition fontZip :: string where
  "fontZip = ''JetBrainsMono.zip''"

definition fontUrl :: string where
  "fontUrl = ''https://download.jetbrains.com/fonts/JetBrainsMono-2.242.zip''"

text \<open>\<open>path.join\<close> throws a TypeError on an argument that is not a string, which is what
  \<open>process.env.HOME\<close> is when the variable is not set.\<close>

definition fontDir :: "string \<Rightarrow> string" where
  "fontDir home = path_join [home, ''.local'', ''share'', ''fonts'']"

definition font_install :: "world \<Rightarrow> state \<Rightarrow> run" where
  "font_install w s =
     (let s1 = log w ''Installing JetBrains Mono Nerd Font...'' s
      in case HOME w of
           None \<Rightarrow> Inl (Uncaught ''TypeError'', s1)
         | Some home \<Rightarrow>
             and_then (if \<not> existsSync (fontDir home) s1
                       then mkdirSync_recursive (fontDir home) s1 else Inr s1)
               (\<lambda>s2. and_then (runCommand w (''curl -L -o '' @ fontZip @ '' '' @ fontUrl) s2)
               (\<lambda>s3. and_then (runCommand w (''unzip -q '' @ fontZip @ '' -d '' @ fontDir home) s3)
               (\<lambda>s4. and_then (unlinkSync fontZip s4)
               (\<lambda>s5. and_then (runCommand w ''fc-cache -f'' s5)
               (\<lambda>s6. Inr (log w
                           ''JetBrains Mono Nerd Font installation completed.'' s6)))))))"

subsection \<open>Install NVChad\<close>

definition nvimDir :: "string \<Rightarrow> string" where
  "nvimDir home = path_join [home, ''.config'', ''nvim'']"

definition clone_command :: "string \<Rightarrow> string" where
  "clone_command home =
     ''git clone -b v2.0 https://github.com/NvChad/NvChad '' @ nvimDir home @ '' --depth 1''"

definition distribution_setup :: "world \<Rightarrow> state \<Rightarrow> run" where
  "distribution_setup w s =
     (let s1 = log w ''Checking if NVChad is installed...'' s
      in case HOME w of
           None \<Rightarrow> Inl (Uncaught ''TypeError'', s1)
         | Some home \<Rightarrow>
             and_then
               (if existsSync (nvimDir home) s1
                then and_then
                       (rmdirSync_recursive w (nvimDir home)
                          (log w ''Removing existing NVChad installation...'' s1))
                       (\<lambda>s2. Inr (log w ''Existing NVChad installation removed.'' s2))
                else Inr s1)
               (\<lambda>s3. and_then (runCommand w (clone_command home)
                                  (log w ''Installing NVChad...'' s3))
               (\<lambda>s4. Inr (log w ''NVChad installation completed.'' s4))))"

subsection \<open>Configure NVChad / LSPs\<close>

record config_file =
  src :: string
  dest :: string

text \<open>The script computes \<open>nvimDir\<close> once, at line 92, and this step reads it; here
  each step computes it from HOME, which does not change during a run.\<close>

definition customDir :: "string \<Rightarrow> string" where
  "customDir home = path_join [nvimDir home, ''lua'', ''custom'']"

definition configFiles :: "world \<Rightarrow> string \<Rightarrow> config_file list" where
  "configFiles w home =
     [\<lparr>src = path_join [script_dirname w, ''configs'', ''chadrc.lua''],
       dest = path_join [nvimDir home, ''lua'', ''custom'', ''chadrc.lua'']\<rparr>,
      \<lparr>src = path_join [script_dirname w, ''configs'', ''plugins.lua''],
       dest = path_join [nvimDir home, ''lua'', ''custom'', ''plugins.lua'']\<rparr>,
      \<lparr>src = path_join [script_dirname w, ''configs'', ''lspconfig.lua''],
       dest = path_join [nvimDir home, ''lua'', ''plugins'', ''configs'', ''lspconfig.lua'']\<rparr>]"

definition copy_config :: "world \<Rightarrow> config_file \<Rightarrow> state \<Rightarrow> run" where
  "copy_config w file s =
     and_then (copyFileSync (src file) (dest file) s)
       (\<lambda>s1. Inr (log w (''Copied '' @ src file @ '' to '' @ dest file) s1))"

definition configure :: "world \<Rightarrow> state \<Rightarrow> run" where
  "configure w s =
     (let s1 = log w ''Configuring NVChad and LSPs...'' s
      in case HOME w of
           None \<Rightarrow> Inl (Uncaught ''TypeError'', s1)
         | Some home \<Rightarrow>
             and_then (if \<not> existsSync (customDir home) s1
                       then mkdirSync_recursive (customDir home) s1 else Inr s1)
               (\<lambda>s2. and_then (forEach (copy_config w) (configFiles w home) s2)
               (\<lambda>s3. Inr (log w ''NVChad and LSPs configuration completed.'' s3))))"

subsection \<open>Install LSPs (Python / TypeScript)\<close>

definition lsp_install :: "world \<Rightarrow> state \<Rightarrow> run" where
  "lsp_install w s =
     and_then (runCommand w ''sudo npm install -g pyright''
                 (log w ''Installing LSPs for Python and TypeScript...'' s))
       (\<lambda>s1. and_then (runCommand w ''sudo npm install -g typescript-language-server'' s1)
       (\<lambda>s2. Inr (log w ''LSPs for Python and TypeScript installed.'' s2)))"

subsection \<open>The whole script\<close>

definition finish :: "world \<Rightarrow> state \<Rightarrow> state" where
  "finish w s = (log w ''Setup completed successfully!'' s)\<lparr>ended := True\<rparr>"

definition provisioning :: "world \<Rightarrow> state \<Rightarrow> run" where
  "provisioning w s =
     and_then (editor_install w s)
       (\<lambda>s1. and_then (font_install w s1)
       (\<lambda>s2. and_then (distribution_setup w s2)
       (\<lambda>s3. and_then (configure w s3)
       (\<lambda>s4. and_then (lsp_install w s4)
       (\<lambda>s5. Inr (finish w s5))))))"

definition initial :: "filesystem \<Rightarrow> state" where
  "initial fs0 =
     \<lparr>logStream = [], console_log = [], console_error = [], files = fs0, dates = 0,
      trace = [], ended = False\<rparr>"

definition main :: "world \<Rightarrow> filesystem \<Rightarrow> run" where
  "main w fs0 = and_then (gate w (initial fs0)) (provisioning w)"

section \<open>Observing a run\<close>

definition final :: "run \<Rightarrow> state" where
  "final r = (case r of Inl (h, s) \<Rightarrow> s | Inr s \<Rightarrow> s)"

definition outcome :: "run \<Rightarrow> halt option" where
  "outcome r = (case r of Inl (h, s) \<Rightarrow> Some h | Inr s \<Rightarrow> None)"

text \<open>Each provisioning step opens with a line of its own on the console, and the first
  thing the first step does to the machine is to probe for the editor. A state shows no
  provisioning when its trace holds nothing but the gate's probes and its console none of
  the opening lines.\<close>

definition step_banners :: "string list" where
  "step_banners =
     [''Checking if NeoVim is installed...'',
      ''Installing JetBrains Mono Nerd Font...'',
      ''Checking if NVChad is installed...'',
      ''Configuring NVChad and LSPs...'',
      ''Installing LSPs for Python and TypeScript...'']"

definition gate_lines :: "string list \<Rightarrow> bool" where
  "gate_lines ms = list_all (\<lambda>m. m \<notin> set step_banners) ms"

definition probes :: "event list" where
  "probes = map (\<lambda>p. Spawn (command p)) prerequisites"

definition no_provisioning :: "state \<Rightarrow> bool" where
  "no_provisioning s =
     (list_all (\<lambda>e. e \<in> set probes) (trace s)
      \<and> gate_lines (console_log s)
      \<and> \<not> ended s)"

text \<open>The directories the script itself made, in order.\<close>

fun made_dirs :: "event list \<Rightarrow> string list" where
  "made_dirs [] = []"
| "made_dirs (Mkdir p # es) = p # made_dirs es"
| "made_dirs (e # es) = made_dirs es"

text \<open>What \<open>path.join\<close> makes of a first argument, ahead of the names joined to it:
  the segments that normalising it keeps, each with a separator after it, behind the
  leading separator of an absolute path.\<close>

definition stem :: "string \<Rightarrow> string list" where
  "stem h = normalizeString (\<not> isAbsolute h) [] (segments_from [] h)"

definition base :: "string \<Rightarrow> string" where
  "base h = (if isAbsolute h then ''/'' else []) @ concat (map (\<lambda>seg. seg @ ''/'') (stem h))"

text \<open>A plain name is a segment that normalising keeps as it is.\<close>

definition plain :: "string \<Rightarrow> bool" where
  "plain n = (n \<noteq> [] \<and> n \<noteq> ''.'' \<and> n \<noteq> ''..'' \<and> CHR ''/'' \<notin> set n)"

text \<open>A stack of kept segments (last one first) is settled when no segment is empty,
  a dot, or holds a separator, and every \<open>..\<close> in it has only \<open>..\<close> beneath it and
  stands in a path that may climb above its start.\<close>

fun settled :: "bool \<Rightarrow> string list \<Rightarrow> bool" where
  "settled allowAboveRoot [] = True"
| "settled allowAboveRoot (seg # res) =
     (seg \<noteq> [] \<and> seg \<noteq> ''.'' \<and> CHR ''/'' \<notin> set seg \<and> settled allowAboveRoot res
      \<and> (if seg = ''..'' then allowAboveRoot \<and> set res \<subseteq> {''..''} else True))"

definition made_only :: "string set \<Rightarrow> state \<Rightarrow> bool" where
  "made_only D s = (set (made_dirs (trace s)) \<subseteq> D)"

text \<open>The directory of the third configuration file's destination.\<close>

definition configs_dir :: "string \<Rightarrow> string" where
  "configs_dir home = path_join [nvimDir home, ''lua'', ''plugins'', ''configs'']"

section \<open>Example hosts\<close>

definition node_prereq :: prereq where
  "node_prereq = \<lparr>name = ''Node.js'', command = ''node --version'', minVersion = ''v14.0.0''\<rparr>"

definition npm_prereq :: prereq where
  "npm_prereq = \<lparr>name = ''npm'', command = ''npm --version'', minVersion = ''6.0.0''\<rparr>"

definition git_prereq :: prereq where
  "git_prereq = \<lparr>name = ''Git'', command = ''git --version'', minVersion = ''2.0.0''\<rparr>"

text \<open>A host on which no command can be run.\<close>

definition failing_host :: world where
  "failing_host =
     \<lparr>toISOString = (\<lambda>k. ''2024-05-01T10:00:00.000Z''),
      child = (\<lambda>k c fs. (Failed (''Command failed: '' @ c), fs)),
      HOME = Some ''/home/u'',
      script_dirname = ''/opt/installer'',
      rmdirSync_throws = (\<lambda>p fs. fs p \<noteq> Some Dir)\<rparr>"

text \<open>A host with Node.js 12 and nothing else.\<close>

definition old_node_host :: world where
  "old_node_host =
     \<lparr>toISOString = (\<lambda>k. ''2024-05-01T10:00:00.000Z''),
      child = (\<lambda>k c fs. if c = ''node --version'' then (Completed (''v12.0.0'' @ newline), fs)
                 else (Failed (''Command failed: '' @ c), fs)),
      HOME = Some ''/home/u'',
      script_dirname = ''/opt/installer'',
      rmdirSync_throws = (\<lambda>p fs. fs p \<noteq> Some Dir)\<rparr>"

text \<open>A host on which every version probe prints 10.2.4.\<close>

definition ten_host :: world where
  "ten_host =
     \<lparr>toISOString = (\<lambda>k. ''2024-05-01T10:00:00.000Z''),
      child = (\<lambda>k c fs. (Completed (''10.2.4'' @ newline), fs)),
      HOME = Some ''/home/u'',
      script_dirname = ''/opt/installer'',
      rmdirSync_throws = (\<lambda>p fs. fs p \<noteq> Some Dir)\<rparr>"

text \<open>A host with recent tools (Node.js 18, so that removing a path that is not a
  directory throws), on which every command succeeds: the download leaves the archive, and
  the clone leaves a tree with \<open>lua/plugins/configs\<close> in it.\<close>

definition cloned_tree :: "filesystem \<Rightarrow> filesystem" where
  "cloned_tree fs =
     fs(''/home/u/.config/nvim'' \<mapsto> Dir,
        ''/home/u/.config/nvim/lua'' \<mapsto> Dir,
        ''/home/u/.config/nvim/lua/plugins'' \<mapsto> Dir,
        ''/home/u/.config/nvim/lua/plugins/configs'' \<mapsto> Dir)"

definition working_host :: world where
  "working_host =
     \<lparr>toISOString = (\<lambda>k. ''2024-05-01T10:00:00.000Z''),
      child = (\<lambda>k c fs.
         if c = ''node --version'' then (Completed (''v18.17.0'' @ newline), fs)
         else if c = ''npm --version'' then (Completed (''9.6.7'' @ newline), fs)
         else if c = ''git --version'' then (Completed (''git version 2.34.1'' @ newline), fs)
         else if c = ''curl -L -o '' @ fontZip @ '' '' @ fontUrl
           then (Completed [], fs(fontZip \<mapsto> File))
         else if c = clone_command ''/home/u'' then (Completed [], cloned_tree fs)
         else (Completed [], fs)),
      HOME = Some ''/home/u'',
      script_dirname = ''/opt/installer'',
      rmdirSync_throws = (\<lambda>p fs. fs p \<noteq> Some Dir)\<rparr>"

text \<open>A host with the three tools of the gate and no other command.\<close>

definition tools_only_host :: world where
  "tools_only_host =
     working_host\<lparr>child := (\<lambda>k c fs.
        if c \<in> {''node --version'', ''npm --version'', ''git --version''}
        then child working_host k c fs
        else (Failed (''Command failed: '' @ c), fs))\<rparr>"

text \<open>A host with a recent Node.js and no other command.\<close>

definition node_only_host :: world where
  "node_only_host =
     working_host\<lparr>child := (\<lambda>k c fs.
        if c = ''node --version''
        then child working_host k c fs
        else (Failed (''Command failed: '' @ c), fs))\<rparr>"

text \<open>The same host, but the clone leaves only the top of the tree.\<close>

definition bare_clone_host :: world where
  "bare_clone_host =
     working_host\<lparr>child := (\<lambda>k c fs.
        if c = clone_command ''/home/u''
        then (Completed [], fs(''/home/u/.config/nvim'' \<mapsto> Dir))
        else child working_host k c fs)\<rparr>"


text \<open>The installer's own files, and a home directory with an earlier configuration.\<close>

definition installer_files :: filesystem where
  "installer_files =
     [''/opt/installer/configs/chadrc.lua'' \<mapsto> File,
      ''/opt/installer/configs/plugins.lua'' \<mapsto> File,
      ''/opt/installer/configs/lspconfig.lua'' \<mapsto> File,
      ''/home/u'' \<mapsto> Dir,
      ''/home/u/.config'' \<mapsto> Dir,
      ''/home/u/.config/nvim'' \<mapsto> Dir,
      ''/home/u/.config/nvim/init.lua'' \<mapsto> File]"


section \<open>Basic facts about the primitives\<close>

lemma log_fields [simp]:
  "logStream (log w m s) =
     logStream s @ [''['' @ toISOString w (dates s) @ ''] '' @ m @ newline]"
  "console_log (log w m s) = console_log s @ [m]"
  "console_error (log w m s) = console_error s"
  "files (log w m s) = files s"
  "dates (log w m s) = Suc (dates s)"
  "trace (log w m s) = trace s"
  "ended (log w m s) = ended s"
  by (simp_all add: log_def Let_def)

lemma logError_fields [simp]:
  "logStream (logError w m s) =
     logStream s @ [''['' @ toISOString w (dates s) @ ''] ERROR: '' @ m @ newline]"
  "console_log (logError w m s) = console_log s"
  "console_error (logError w m s) = console_error s @ [m]"
  "files (logError w m s) = files s"
  "dates (logError w m s) = Suc (dates s)"
  "trace (logError w m s) = trace s"
  "ended (logError w m s) = ended s"
  by (simp_all add: logError_def Let_def)

lemma final_simps [simp]: "final (Inl (h, s)) = s" "final (Inr s) = s"
  by (simp_all add: final_def)

lemma outcome_simps [simp]: "outcome (Inl (h, s)) = Some h" "outcome (Inr s) = None"
  by (simp_all add: outcome_def)

lemma and_then_simps [simp]: "and_then (Inl x) k = Inl x" "and_then (Inr s) k = k s"
  by (simp_all add: and_then_def)

lemma execSync_eq:
  "child w (length (trace s)) c (files s) = (r, fs') \<Longrightarrow>
   execSync w c s = (r, s\<lparr>files := fs', trace := trace s @ [Spawn c]\<rparr>)"
  by (simp add: execSync_def)

lemma runCommand_Completed:
  "child w (length (trace s)) c (files s) = (Completed out, fs') \<Longrightarrow>
   runCommand w c s =
     Inr (log w (''Command executed: '' @ c) (s\<lparr>files := fs', trace := trace s @ [Spawn c]\<rparr>))"
  by (simp add: runCommand_def execSync_eq)

lemma runCommand_Failed:
  "child w (length (trace s)) c (files s) = (Failed e, fs') \<Longrightarrow>
   runCommand w c s =
     Inl (Exit 1, logError w e (logError w (''Error executing command: '' @ c)
                                  (s\<lparr>files := fs', trace := trace s @ [Spawn c]\<rparr>)))"
  by (simp add: runCommand_def execSync_eq)

lemma js_lt_lexord: "js_lt a b \<longleftrightarrow> lexicographic_less a b"
  unfolding lexicographic_less_def code_unit_less_def
  by (induction a b rule: js_lt.induct) auto

lemma check_prereq_Completed:
  "child w (length (trace s)) (command p) (files s) = (Completed out, fs') \<Longrightarrow>
   check_prereq w p s =
     (if js_lt (replace_leading_v (trim out)) (replace_leading_v (minVersion p))
      then Inl (Exit 1, logError w (outdated_message p)
                  (log w (name p @ '' version: '' @ trim out)
                     (s\<lparr>files := fs', trace := trace s @ [Spawn (command p)]\<rparr>)))
      else Inr (log w (name p @ '' version: '' @ trim out)
                  (s\<lparr>files := fs', trace := trace s @ [Spawn (command p)]\<rparr>)))"
  by (simp add: check_prereq_def execSync_eq Let_def)

lemma check_prereq_Failed:
  "child w (length (trace s)) (command p) (files s) = (Failed e, fs') \<Longrightarrow>
   check_prereq w p s =
     Inl (Exit 1, logError w (not_installed_message p)
                    (s\<lparr>files := fs', trace := trace s @ [Spawn (command p)]\<rparr>))"
  by (simp add: check_prereq_def execSync_eq)

section \<open>Facts about the loop over the prerequisites\<close>

lemma forEach_append:
  "forEach f (xs @ ys) s = and_then (forEach f xs s) (forEach f ys)"
proof (induction xs arbitrary: s)
  case Nil
  show ?case by simp
next
  case (Cons x xs)
  show ?case
  proof (cases "f x s")
    case (Inl a)
    then show ?thesis by simp
  next
    case (Inr s')
    then show ?thesis using Cons.IH [of s'] by simp
  qed
qed

lemma check_prereq_cases:
  obtains (missing) e fs' where
      "child w (length (trace s)) (command p) (files s) = (Failed e, fs')"
      "check_prereq w p s =
         Inl (Exit 1, logError w (not_installed_message p)
                        (s\<lparr>files := fs', trace := trace s @ [Spawn (command p)]\<rparr>))"
  | (outdated) out fs' where
      "child w (length (trace s)) (command p) (files s) = (Completed out, fs')"
      "js_lt (replace_leading_v (trim out)) (replace_leading_v (minVersion p))"
      "check_prereq w p s =
         Inl (Exit 1, logError w (outdated_message p)
                  (log w (name p @ '' version: '' @ trim out)
                     (s\<lparr>files := fs', trace := trace s @ [Spawn (command p)]\<rparr>)))"
  | (passed) out fs' where
      "child w (length (trace s)) (command p) (files s) = (Completed out, fs')"
      "\<not> js_lt (replace_leading_v (trim out)) (replace_leading_v (minVersion p))"
      "check_prereq w p s =
         Inr (log w (name p @ '' version: '' @ trim out)
                     (s\<lparr>files := fs', trace := trace s @ [Spawn (command p)]\<rparr>))"
proof -
  obtain r fs' where c: "child w (length (trace s)) (command p) (files s) = (r, fs')"
    by (cases "child w (length (trace s)) (command p) (files s)")
  show thesis
  proof (cases r)
    case (Failed e)
    with c check_prereq_Failed [of w s p e fs'] missing show thesis by simp
  next
    case (Completed out)
    with c check_prereq_Completed [of w s p out fs'] outdated passed show thesis
      by (cases "js_lt (replace_leading_v (trim out)) (replace_leading_v (minVersion p))") simp_all
  qed
qed

lemma version_line_is_no_banner:
  "p \<in> set prerequisites \<Longrightarrow> name p @ '' version: '' @ v \<notin> set step_banners"
  by (auto simp: prerequisites_def step_banners_def)

lemma check_prereq_effects:
  assumes "p \<in> set prerequisites"
  shows "trace (final (check_prereq w p s)) = trace s @ [Spawn (command p)]
         \<and> ended (final (check_prereq w p s)) = ended s
         \<and> (\<exists>ms. console_log (final (check_prereq w p s)) = console_log s @ ms
                  \<and> gate_lines ms)
         \<and> (outcome (check_prereq w p s) = None
              \<longrightarrow> console_error (final (check_prereq w p s)) = console_error s)
         \<and> outcome (check_prereq w p s) \<in> {None, Some (Exit 1)}"
proof (cases rule: check_prereq_cases [of w s p])
  case (missing e fs')
  then show ?thesis by (simp add: gate_lines_def)
next
  case (outdated out fs')
  then show ?thesis using version_line_is_no_banner [OF assms]
    by (simp add: gate_lines_def)
next
  case (passed out fs')
  then show ?thesis using version_line_is_no_banner [OF assms]
    by (simp add: gate_lines_def)
qed

lemma forEach_check_passed:
  assumes "set ys \<subseteq> set prerequisites"
      and "forEach (check_prereq w) ys s = Inr s'"
  shows "trace s' = trace s @ map (\<lambda>p. Spawn (command p)) ys
         \<and> ended s' = ended s
         \<and> console_error s' = console_error s
         \<and> (\<exists>ms. console_log s' = console_log s @ ms \<and> gate_lines ms)"
  using assms
proof (induction ys arbitrary: s)
  case Nil
  then show ?case by (simp add: gate_lines_def)
next
  case (Cons p ys)
  from Cons.prems(1) have p: "p \<in> set prerequisites" and ys: "set ys \<subseteq> set prerequisites"
    by simp_all
  show ?case
  proof (cases "check_prereq w p s")
    case (Inl a)
    with Cons.prems(2) show ?thesis by simp
  next
    case (Inr s1)
    with Cons.prems(2) have rest: "forEach (check_prereq w) ys s1 = Inr s'" by simp
    from check_prereq_effects [OF p, of w s] Inr
    obtain ms where one: "trace s1 = trace s @ [Spawn (command p)]" "ended s1 = ended s"
      "console_error s1 = console_error s" "console_log s1 = console_log s @ ms"
      "gate_lines ms"
      by auto
    from Cons.IH [OF ys rest]
    obtain ns where more: "trace s' = trace s1 @ map (\<lambda>p. Spawn (command p)) ys"
      "ended s' = ended s1" "console_error s' = console_error s1"
      "console_log s' = console_log s1 @ ns" "gate_lines ns"
      by auto
    have "gate_lines (ms @ ns)" using one(5) more(5) by (simp add: gate_lines_def)
    with one more show ?thesis by auto
  qed
qed

lemma gate_stopped_state:
  assumes split: "prerequisites = ys @ p # zs"
      and before: "forEach (check_prereq w) ys (initial fs0) = Inr s1"
      and stop: "outcome (check_prereq w p s1) \<noteq> None"
  shows "main w fs0 = check_prereq w p s1"
    and "outcome (check_prereq w p s1) = Some (Exit 1)"
    and "no_provisioning (final (check_prereq w p s1))"
    and "console_error s1 = []"
proof -
  from stop obtain h s2 where inl: "check_prereq w p s1 = Inl (h, s2)"
    by (cases "check_prereq w p s1") auto
  have "gate w (initial fs0) = and_then (forEach (check_prereq w) ys (initial fs0))
                                 (forEach (check_prereq w) (p # zs))"
    unfolding gate_def split by (rule forEach_append)
  then have "gate w (initial fs0) = Inl (h, s2)"
    using before inl by simp
  then show "main w fs0 = check_prereq w p s1"
    using inl by (simp add: main_def)
  have p: "p \<in> set prerequisites" and ys: "set ys \<subseteq> set prerequisites"
    unfolding split by auto
  from check_prereq_effects [OF p, of w s1] stop
  show "outcome (check_prereq w p s1) = Some (Exit 1)" by auto
  from forEach_check_passed [OF ys before]
  obtain ms where s1: "trace s1 = map (\<lambda>p. Spawn (command p)) ys" "ended s1 = False"
    "console_error s1 = []" "console_log s1 = ms" "gate_lines ms"
    by (auto simp: initial_def)
  show "console_error s1 = []" by (rule s1(3))
  from check_prereq_effects [OF p, of w s1]
  obtain ns where s2: "trace (final (check_prereq w p s1)) = trace s1 @ [Spawn (command p)]"
    "ended (final (check_prereq w p s1)) = ended s1"
    "console_log (final (check_prereq w p s1)) = console_log s1 @ ns" "gate_lines ns"
    by auto
  have "set (map (\<lambda>p. Spawn (command p)) (ys @ [p])) \<subseteq> set probes"
    unfolding probes_def split by auto
  then have "list_all (\<lambda>e. e \<in> set probes) (trace (final (check_prereq w p s1)))"
    using s1(1) s2(1) by (simp add: list_all_iff subset_iff)
  moreover have "gate_lines (console_log (final (check_prereq w p s1)))"
    using s1(4,5) s2(3,4) by (simp add: gate_lines_def)
  ultimately show "no_provisioning (final (check_prereq w p s1))"
    using s1(2) s2(2) by (simp add: no_provisioning_def)
qed

section \<open>Facts about joining and normalising paths\<close>

lemma segments_from_separator:
  "segments_from cur (xs @ CHR ''/'' # ys) = segments_from cur xs @ segments_from [] ys"
  by (induction xs arbitrary: cur) simp_all

lemma segments_from_no_separator:
  "CHR ''/'' \<notin> set n \<Longrightarrow> segments_from cur n = [cur @ n]"
  by (induction n arbitrary: cur) auto

lemma segments_from_join:
  assumes "S \<noteq> []" and "\<forall>seg \<in> set S. CHR ''/'' \<notin> set seg"
  shows "segments_from cur (join_segments S) = (cur @ hd S) # tl S"
  using assms
proof (induction S arbitrary: cur rule: join_segments.induct)
  case 1
  then show ?case by simp
next
  case (2 a)
  then show ?case by (simp add: segments_from_no_separator)
next
  case (3 a b rest)
  have "segments_from cur (a @ CHR ''/'' # join_segments (b # rest))
          = segments_from cur a @ segments_from [] (join_segments (b # rest))"
    by (rule segments_from_separator)
  also have "segments_from cur a = [cur @ a]"
    using "3.prems" by (simp add: segments_from_no_separator)
  also have "segments_from [] (join_segments (b # rest)) = b # rest"
    using "3.IH" [of "[]"] "3.prems" by simp
  finally show ?case by simp
qed

lemma segments_from_free:
  "seg \<in> set (segments_from cur p) \<Longrightarrow> CHR ''/'' \<notin> set cur \<Longrightarrow> CHR ''/'' \<notin> set seg"
proof (induction p arbitrary: cur)
  case Nil
  then show ?case by simp
next
  case (Cons c p)
  show ?case
  proof (cases "c = CHR ''/''")
    case True
    with Cons.prems have "seg = cur \<or> seg \<in> set (segments_from [] p)" by simp
    then show ?thesis using Cons.prems(2) Cons.IH [of "[]"] by auto
  next
    case False
    with Cons.prems have "seg \<in> set (segments_from (cur @ [c]) p)" by simp
    then show ?thesis using Cons.prems(2) False Cons.IH [of "cur @ [c]"] by auto
  qed
qed

lemma normalizeString_plain:
  "\<forall>n \<in> set ns. plain n \<Longrightarrow> normalizeString a res ns = rev res @ ns"
  by (induction ns arbitrary: res) (simp_all add: plain_def)

lemma normalizeString_append:
  "\<forall>n \<in> set ns. plain n \<Longrightarrow>
   normalizeString a res (xs @ ns) = normalizeString a res xs @ ns"
proof (induction xs arbitrary: res)
  case Nil
  then show ?case by (simp add: normalizeString_plain)
next
  case (Cons x xs)
  then show ?case by (cases a) (simp_all split: list.splits)
qed

lemma settled_suffix: "settled a (xs @ ys) \<Longrightarrow> settled a ys"
  by (induction xs) simp_all

lemma normalizeString_settled:
  "settled a res \<Longrightarrow> \<forall>seg \<in> set xs. CHR ''/'' \<notin> set seg \<Longrightarrow>
   settled a (rev (normalizeString a res xs))"
proof (induction xs arbitrary: res)
  case Nil
  then show ?case by simp
next
  case (Cons x xs)
  note IH = Cons.IH
  from Cons.prems have free: "CHR ''/'' \<notin> set x" and rest: "\<forall>seg \<in> set xs. CHR ''/'' \<notin> set seg"
    by simp_all
  show ?case
  proof (cases "x = [] \<or> x = ''.''")
    case True
    then show ?thesis using IH [OF Cons.prems(1) rest] by auto
  next
    case False
    show ?thesis
    proof (cases "x = ''..''")
      case up: True
      show ?thesis
      proof (cases res)
        case Nil
        have "settled a (if a then [''..''] else [])" by simp
        from IH [OF this rest] show ?thesis using up Nil by (cases a) simp_all
      next
        case (Cons r rs)
        show ?thesis
        proof (cases "r = ''..''")
          case True
          have "settled a (if a then ''..'' # res else res)"
            using Cons.prems(1) Cons True \<open>settled a res\<close> by auto
          from IH [OF this rest] show ?thesis using up Cons True by (cases a) simp_all
        next
          case False
          have "settled a rs" using \<open>settled a res\<close> Cons by simp
          from IH [OF this rest] show ?thesis using up Cons False by simp
        qed
      qed
    next
      case plainseg: False
      have "settled a (x # res)"
        using False plainseg free \<open>settled a res\<close> by simp
      from IH [OF this rest] show ?thesis using False plainseg by simp
    qed
  qed
qed

lemma normalizeString_stable:
  "settled a (rev S @ res) \<Longrightarrow> normalizeString a res S = rev res @ S"
proof (induction S arbitrary: res)
  case Nil
  then show ?case by simp
next
  case (Cons x S)
  from Cons.prems have all: "settled a (rev S @ x # res)" by simp
  then have top: "settled a (x # res)" by (rule settled_suffix)
  show ?case
  proof (cases "x = ''..''")
    case True
    with top have a: "a" and under: "set res \<subseteq> {''..''}" by simp_all
    show ?thesis
    proof (cases res)
      case Nil
      then show ?thesis using True a Cons.IH [of "[''..'']"] all by simp
    next
      case (Cons r rs)
      with under have "r = ''..''" by simp
      then show ?thesis using True a Cons Cons.IH [of "''..'' # res"] all by simp
    qed
  next
    case False
    with top have "x \<noteq> []" "x \<noteq> ''.''" by simp_all
    then show ?thesis using False Cons.IH [of "x # res"] all by simp
  qed
qed

lemma join_segments_append:
  "N \<noteq> [] \<Longrightarrow> join_segments (S @ N) = concat (map (\<lambda>seg. seg @ ''/'') S) @ join_segments N"
proof (induction S)
  case Nil
  show ?case by simp
next
  case (Cons s S)
  then obtain x xs where "S @ N = x # xs" by (cases "S @ N") auto
  with Cons show ?case by simp
qed

lemma join_segments_Cons:
  "M \<noteq> [] \<Longrightarrow> join_segments (a # M) = a @ ''/'' @ join_segments M"
  by (cases M) simp_all

lemma join_segments_separator:
  "N \<noteq> [] \<Longrightarrow> join_segments N @ ''/'' = concat (map (\<lambda>seg. seg @ ''/'') N)"
  by (induction N rule: join_segments.induct) simp_all

lemma join_segments_empty:
  "\<forall>seg \<in> set S. seg \<noteq> [] \<Longrightarrow> (join_segments S = []) = (S = [])"
  by (induction S rule: join_segments.induct) simp_all

lemma hd_join_segments:
  "S \<noteq> [] \<Longrightarrow> hd S \<noteq> [] \<Longrightarrow> hd (join_segments S) = hd (hd S)"
  by (induction S rule: join_segments.induct) simp_all

lemma last_join_segments:
  "S \<noteq> [] \<Longrightarrow> \<forall>seg \<in> set S. seg \<noteq> [] \<Longrightarrow> last (join_segments S) = last (last S)"
proof (induction S rule: join_segments.induct)
  case 1
  then show ?case by simp
next
  case (2 a)
  then show ?case by simp
next
  case (3 a b rest)
  then have "join_segments (b # rest) \<noteq> []" by (simp add: join_segments_empty)
  with 3 show ?case by simp
qed

lemma settled_elements:
  "settled a res \<Longrightarrow> seg \<in> set res \<Longrightarrow> seg \<noteq> [] \<and> seg \<noteq> ''.'' \<and> CHR ''/'' \<notin> set seg"
  by (induction res) (auto split: if_splits)

lemma settled_plain_push:
  "settled a res \<Longrightarrow> \<forall>n \<in> set N. plain n \<Longrightarrow> settled a (rev N @ res)"
proof (induction N arbitrary: res)
  case Nil
  then show ?case by simp
next
  case (Cons n N)
  then have "settled a (n # res)" by (simp add: plain_def)
  from Cons.IH [OF this] Cons.prems(2) show ?case by simp
qed

lemma path_normalize_kept:
  assumes "p \<noteq> []"
      and "normalizeString (\<not> isAbsolute p) [] (segments_from [] p) = S"
      and "join_segments S \<noteq> []"
      and "last p \<noteq> CHR ''/''"
  shows "path_normalize p = (if isAbsolute p then ''/'' else []) @ join_segments S"
  using assms by (simp add: path_normalize_def Let_def)

text \<open>Normalising an already normalised path that does not end in a separator gives it
  back.\<close>

lemma path_normalize_rendered:
  assumes "settled (\<not> a) (rev S)" and "S \<noteq> []"
  shows "path_normalize ((if a then ''/'' else []) @ join_segments S)
           = (if a then ''/'' else []) @ join_segments S"
proof -
  define p where "p = (if a then ''/'' else []) @ join_segments S"
  have elems: "\<forall>seg \<in> set S. seg \<noteq> [] \<and> seg \<noteq> ''.'' \<and> CHR ''/'' \<notin> set seg"
    using settled_elements [OF assms(1)] by simp
  then have nonempty: "\<forall>seg \<in> set S. seg \<noteq> []" and free: "\<forall>seg \<in> set S. CHR ''/'' \<notin> set seg"
    by simp_all
  have body: "join_segments S \<noteq> []"
    using assms(2) nonempty by (simp add: join_segments_empty)
  have hdS: "hd S \<noteq> []" "CHR ''/'' \<notin> set (hd S)" using assms(2) elems by simp_all
  then have "hd (hd S) \<noteq> CHR ''/''" by (cases "hd S") auto
  then have first: "hd (join_segments S) \<noteq> CHR ''/''"
    using hd_join_segments [OF assms(2) hdS(1)] by simp
  have abs: "isAbsolute p = a"
    unfolding p_def using body first by (cases "join_segments S") (auto simp: isAbsolute_def)
  have lastS: "last S \<noteq> []" "CHR ''/'' \<notin> set (last S)" using assms(2) elems by simp_all
  moreover from lastS(1) have "last (last S) \<in> set (last S)" by simp
  ultimately have "last (last S) \<noteq> CHR ''/''" by metis
  then have trailing: "last p \<noteq> CHR ''/''"
    unfolding p_def using body last_join_segments [OF assms(2) nonempty] by simp
  have segs: "segments_from [] p = (if a then [[]] else []) @ S"
  proof (cases a)
    case True
    have "segments_from [] (CHR ''/'' # join_segments S) = [] # segments_from [] (join_segments S)"
      by simp
    then show ?thesis
      unfolding p_def using True segments_from_join [OF assms(2) free, of "[]"] assms(2) by simp
  next
    case False
    then show ?thesis
      unfolding p_def using segments_from_join [OF assms(2) free, of "[]"] assms(2) by simp
  qed
  have "normalizeString (\<not> a) [] ((if a then [[]] else []) @ S) = normalizeString (\<not> a) [] S"
    by simp
  also have "\<dots> = S"
    using normalizeString_stable [of "\<not> a" S "[]"] assms(1) by simp
  finally have kept: "normalizeString (\<not> isAbsolute p) [] (segments_from [] p) = S"
    unfolding abs segs .
  have nonnull: "p \<noteq> []" unfolding p_def using body by simp
  have "path_normalize p = (if a then ''/'' else []) @ join_segments S"
    using path_normalize_kept [OF nonnull kept body trailing] abs by simp
  then show ?thesis unfolding p_def .
qed

lemma stem_settled: "settled (\<not> isAbsolute h) (rev (stem h))"
  unfolding stem_def
  by (rule normalizeString_settled) (auto dest: segments_from_free)

lemma base_join:
  "N \<noteq> [] \<Longrightarrow>
   base h @ join_segments N = (if isAbsolute h then ''/'' else []) @ join_segments (stem h @ N)"
  by (simp add: base_def join_segments_append)

text \<open>Joining plain names to a first argument puts them behind its base, and joining
  more plain names to the result puts them behind that.\<close>

lemma path_join_plain:
  assumes "N \<noteq> []" and "\<forall>n \<in> set N. plain n"
  shows "path_join (h # N) = base h @ join_segments N"
proof -
  have nonempty: "\<forall>n \<in> set N. n \<noteq> []" using assms(2) by (simp add: plain_def)
  then have filtered: "filter (\<lambda>arg. arg \<noteq> []) N = N" by (simp add: filter_id_conv)
  have st: "settled (\<not> isAbsolute h) (rev (stem h @ N))"
    using settled_plain_push [OF stem_settled assms(2)] by simp
  have target: "path_normalize ((if isAbsolute h then ''/'' else []) @ join_segments (stem h @ N))
                  = base h @ join_segments N"
    using path_normalize_rendered [OF st] assms(1) base_join [OF assms(1), of h] by simp
  have body: "join_segments N \<noteq> []" using assms(1) nonempty by (simp add: join_segments_empty)
  have lastN: "last (join_segments N) \<noteq> CHR ''/''"
  proof -
    have "plain (last N)" using assms by simp
    then have "last N \<noteq> []" "CHR ''/'' \<notin> set (last N)" by (simp_all add: plain_def)
    moreover from this(1) have "last (last N) \<in> set (last N)" by simp
    ultimately have "last (last N) \<noteq> CHR ''/''" by metis
    then show ?thesis using last_join_segments [OF assms(1) nonempty] by simp
  qed
  have free: "\<forall>n \<in> set N. CHR ''/'' \<notin> set n" using assms(2) by (simp add: plain_def)
  show ?thesis
  proof (cases "h = []")
    case True
    have "stem [] = []" by (simp add: stem_def)
    moreover have "\<not> isAbsolute []" by (simp add: isAbsolute_def)
    ultimately have "path_normalize (join_segments N) = base [] @ join_segments N"
      using target True by simp
    then show ?thesis
      using True body by (simp add: path_join_def filtered)
  next
    case False
    let ?j = "h @ CHR ''/'' # join_segments N"
    have "filter (\<lambda>arg. arg \<noteq> []) (h # N) = h # N"
      using False filtered by simp
    moreover have "join_segments (h # N) = ?j"
      using assms(1) by (cases N) simp_all
    ultimately have joined: "join_segments (filter (\<lambda>arg. arg \<noteq> []) (h # N)) = ?j"
      by simp
    have abs: "isAbsolute ?j = isAbsolute h"
      using False by (cases h) (simp_all add: isAbsolute_def)
    have segs: "segments_from [] ?j = segments_from [] h @ N"
      using segments_from_separator [of "[]" h "join_segments N"]
        segments_from_join [OF assms(1) free, of "[]"] assms(1) by simp
    have kept: "normalizeString (\<not> isAbsolute ?j) [] (segments_from [] ?j) = stem h @ N"
      unfolding abs segs using normalizeString_append [OF assms(2)] by (simp add: stem_def)
    have out: "join_segments (stem h @ N) \<noteq> []"
      using assms(1) body by (simp add: join_segments_append)
    have nonnull: "?j \<noteq> []" by simp
    have trailing: "last ?j \<noteq> CHR ''/''" using lastN body by simp
    have "path_normalize ?j = (if isAbsolute h then ''/'' else []) @ join_segments (stem h @ N)"
      using path_normalize_kept [OF nonnull kept out trailing] abs by simp
    then have "path_normalize ?j = base h @ join_segments N"
      using base_join [OF assms(1), of h] by simp
    then show ?thesis
      unfolding path_join_def Let_def joined by simp
  qed
qed

lemma path_join_plain_again:
  assumes "N \<noteq> []" and "\<forall>n \<in> set N. plain n" and "M \<noteq> []" and "\<forall>n \<in> set M. plain n"
  shows "path_join ((base h @ join_segments N) # M) = base h @ join_segments (N @ M)"
proof -
  let ?a = "isAbsolute h"
  let ?p = "base h @ join_segments N"
  have nonemptyN: "\<forall>n \<in> set N. n \<noteq> []" and nonemptyM: "\<forall>n \<in> set M. n \<noteq> []"
    using assms by (simp_all add: plain_def)
  have p: "?p \<noteq> []" using assms(1) nonemptyN by (simp add: join_segments_empty)
  have filtered: "filter (\<lambda>arg. arg \<noteq> []) (?p # M) = ?p # M"
    using p nonemptyM by (simp add: filter_id_conv)
  have "join_segments (?p # M) = ?p @ ''/'' @ join_segments M"
    using assms(3) by (cases M) simp_all
  also have "\<dots> = base h @ join_segments (N @ M)"
    using assms(1,3) join_segments_separator [of N] by (simp add: join_segments_append)
  finally have joined: "join_segments (filter (\<lambda>arg. arg \<noteq> []) (?p # M))
                          = base h @ join_segments (N @ M)"
    unfolding filtered .
  have NM: "N @ M \<noteq> []" "\<forall>n \<in> set (N @ M). plain n" using assms by auto
  have st: "settled (\<not> ?a) (rev (stem h @ N @ M))"
    using settled_plain_push [OF stem_settled NM(2), of h] by simp
  have "path_normalize ((if ?a then ''/'' else []) @ join_segments (stem h @ N @ M))
          = (if ?a then ''/'' else []) @ join_segments (stem h @ N @ M)"
    using path_normalize_rendered [OF st] NM(1) by simp
  then have norm: "path_normalize (base h @ join_segments (N @ M)) = base h @ join_segments (N @ M)"
    using base_join [OF NM(1), of h] by simp
  have "\<forall>seg \<in> set (N @ M). seg \<noteq> []" using nonemptyN nonemptyM by auto
  then have "join_segments (N @ M) \<noteq> []"
    using NM(1) join_segments_empty [of "N @ M"] by blast
  then have "base h @ join_segments (N @ M) \<noteq> []" by simp
  then show ?thesis
    unfolding path_join_def joined Let_def using norm by simp
qed

section \<open>Facts about the steps\<close>


lemma outcome_and_then:
  "outcome (and_then r k) = (case r of Inl x \<Rightarrow> outcome r | Inr s \<Rightarrow> outcome (k s))"
  by (cases r) simp_all

lemma runCommand_cases:
  obtains (completed) out fs' where
      "child w (length (trace s)) c (files s) = (Completed out, fs')"
      "runCommand w c s =
         Inr (log w (''Command executed: '' @ c)
                (s\<lparr>files := fs', trace := trace s @ [Spawn c]\<rparr>))"
  | (failed) e fs' where
      "child w (length (trace s)) c (files s) = (Failed e, fs')"
      "runCommand w c s =
         Inl (Exit 1, logError w e (logError w (''Error executing command: '' @ c)
                                      (s\<lparr>files := fs', trace := trace s @ [Spawn c]\<rparr>)))"
proof -
  obtain r fs' where c: "child w (length (trace s)) c (files s) = (r, fs')"
    by (cases "child w (length (trace s)) c (files s)")
  show thesis
  proof (cases r)
    case (Completed out)
    with c runCommand_Completed [of w s c out fs'] completed show thesis by simp
  next
    case (Failed e)
    with c runCommand_Failed [of w s c e fs'] failed show thesis by simp
  qed
qed

lemma runCommand_trace: "trace (final (runCommand w c s)) = trace s @ [Spawn c]"
  by (cases rule: runCommand_cases [of w s c]) simp_all

lemma runCommand_outcome: "outcome (runCommand w c s) \<in> {None, Some (Exit 1)}"
  by (cases rule: runCommand_cases [of w s c]) simp_all

lemma nvimDir_eq: "nvimDir home = base home @ ''.config/nvim''"
  using path_join_plain [of "[''.config'', ''nvim'']" home]
  by (simp add: nvimDir_def plain_def)

lemma fontDir_eq: "fontDir home = base home @ ''.local/share/fonts''"
  using path_join_plain [of "[''.local'', ''share'', ''fonts'']" home]
  by (simp add: fontDir_def plain_def)

lemma under_nvimDir:
  assumes "M \<noteq> []" and "\<forall>n \<in> set M. plain n"
  shows "path_join (nvimDir home # M) = nvimDir home @ ''/'' @ join_segments M"
  using path_join_plain_again [of "[''.config'', ''nvim'']" M home] assms
  by (simp add: nvimDir_eq plain_def join_segments_Cons)

lemma customDir_eq: "customDir home = nvimDir home @ ''/lua/custom''"
  using under_nvimDir [of "[''lua'', ''custom'']" home]
  by (simp add: customDir_def plain_def)

lemma home_u_paths:
  "nvimDir ''/home/u'' = ''/home/u/.config/nvim''"
  "customDir ''/home/u'' = ''/home/u/.config/nvim/lua/custom''"
  "fontDir ''/home/u'' = ''/home/u/.local/share/fonts''"
  "clone_command ''/home/u''
     = ''git clone -b v2.0 https://github.com/NvChad/NvChad /home/u/.config/nvim --depth 1''"
  by (simp_all add: customDir_eq nvimDir_eq fontDir_eq clone_command_def base_def stem_def
        isAbsolute_def)

section \<open>Facts about paths and the file system calls\<close>

lemma configs_dir_eq: "configs_dir home = nvimDir home @ ''/lua/plugins/configs''"
  using under_nvimDir [of "[''lua'', ''plugins'', ''configs'']" home]
  by (simp add: configs_dir_def plain_def)

lemma configFiles_eq:
  "configFiles w home =
     [\<lparr>src = base (script_dirname w) @ ''configs/chadrc.lua'',
       dest = nvimDir home @ ''/lua/custom/chadrc.lua''\<rparr>,
      \<lparr>src = base (script_dirname w) @ ''configs/plugins.lua'',
       dest = nvimDir home @ ''/lua/custom/plugins.lua''\<rparr>,
      \<lparr>src = base (script_dirname w) @ ''configs/lspconfig.lua'',
       dest = nvimDir home @ ''/lua/plugins/configs/lspconfig.lua''\<rparr>]"
  using under_nvimDir [of "[''lua'', ''custom'', ''chadrc.lua'']" home]
    under_nvimDir [of "[''lua'', ''custom'', ''plugins.lua'']" home]
    under_nvimDir [of "[''lua'', ''plugins'', ''configs'', ''lspconfig.lua'']" home]
    path_join_plain [of "[''configs'', ''chadrc.lua'']" "script_dirname w"]
    path_join_plain [of "[''configs'', ''plugins.lua'']" "script_dirname w"]
    path_join_plain [of "[''configs'', ''lspconfig.lua'']" "script_dirname w"]
  by (simp add: configFiles_def plain_def)

lemma home_u_configs:
  "configs_dir ''/home/u'' = ''/home/u/.config/nvim/lua/plugins/configs''"
  "script_dirname w = ''/opt/installer'' \<Longrightarrow>
   configFiles w ''/home/u'' =
     [\<lparr>src = ''/opt/installer/configs/chadrc.lua'',
       dest = ''/home/u/.config/nvim/lua/custom/chadrc.lua''\<rparr>,
      \<lparr>src = ''/opt/installer/configs/plugins.lua'',
       dest = ''/home/u/.config/nvim/lua/custom/plugins.lua''\<rparr>,
      \<lparr>src = ''/opt/installer/configs/lspconfig.lua'',
       dest = ''/home/u/.config/nvim/lua/plugins/configs/lspconfig.lua''\<rparr>]"
  by (simp_all add: configs_dir_eq configFiles_eq home_u_paths base_def stem_def isAbsolute_def)

lemma dirname_lspconfig:
  "dirname (nvimDir home @ ''/lua/plugins/configs/lspconfig.lua'')
     = nvimDir home @ ''/lua/plugins/configs''"
  by (simp add: dirname_def)

lemma ancestors_from_length:
  "q \<in> set (ancestors_from pre cs) \<Longrightarrow> length q < length pre + length cs"
proof (induction cs arbitrary: pre)
  case Nil
  then show ?case by simp
next
  case (Cons c cs)
  then show ?case by (fastforce split: if_splits)
qed

lemma chain_length: "q \<in> set (ancestors p @ [p]) \<Longrightarrow> length q \<le> length p"
  using ancestors_from_length [of q "[]" p] by (auto simp: ancestors_def)

lemma configs_dir_not_made_with_customDir:
  "configs_dir home \<notin> set (ancestors (customDir home) @ [customDir home])"
  using chain_length [of "configs_dir home" "customDir home"]
  by (auto simp: configs_dir_eq customDir_eq)

lemma configs_dir_not_made_with_fontDir:
  "configs_dir home \<notin> set (ancestors (fontDir home) @ [fontDir home])"
  using chain_length [of "configs_dir home" "fontDir home"]
  by (auto simp: configs_dir_eq fontDir_eq nvimDir_eq)

lemma made_dirs_append: "made_dirs (xs @ ys) = made_dirs xs @ made_dirs ys"
  by (induction xs rule: made_dirs.induct) simp_all

lemma mkdirSync_recursive_result:
  "mkdirSync_recursive p s = Inl (Uncaught ''mkdirSync'', s\<lparr>trace := trace s @ [Mkdir p]\<rparr>)
   \<or> mkdirSync_recursive p s =
       Inr (s\<lparr>trace := trace s @ [Mkdir p],
              files := (\<lambda>q. if q \<in> set (ancestors p @ [p]) then Some Dir else files s q)\<rparr>)"
  by (simp add: mkdirSync_recursive_def Let_def)

lemma copy_config_result:
  "copy_config w f s =
     Inl (Uncaught ''copyFileSync'', s\<lparr>trace := trace s @ [CopyFile (src f) (dest f)]\<rparr>)
   \<or> (files s (dirname (dest f)) = Some Dir
      \<and> copy_config w f s =
          Inr (log w (''Copied '' @ src f @ '' to '' @ dest f)
                 (s\<lparr>trace := trace s @ [CopyFile (src f) (dest f)],
                    files := (files s)(dest f \<mapsto> File)\<rparr>)))"
  by (simp add: copy_config_def copyFileSync_def Let_def)

lemma copy_config_trace:
  "trace (final (copy_config w f s)) = trace s @ [CopyFile (src f) (dest f)]"
  using copy_config_result [of w f s] by auto

lemma forEach_copy_config_made_dirs:
  "\<exists>evs. trace (final (forEach (copy_config w) fs s)) = trace s @ evs \<and> made_dirs evs = []"
proof (induction fs arbitrary: s)
  case Nil
  show ?case by simp
next
  case (Cons f fs)
  show ?case
  proof (cases "copy_config w f s")
    case (Inl a)
    then have "trace (final (forEach (copy_config w) (f # fs) s))
                 = trace s @ [CopyFile (src f) (dest f)]"
      using copy_config_trace [of w f s] by (cases a) simp
    then show ?thesis by simp
  next
    case (Inr s')
    then have s': "trace s' = trace s @ [CopyFile (src f) (dest f)]"
      using copy_config_trace [of w f s] by simp
    from Cons.IH [of s'] obtain evs where
      "trace (final (forEach (copy_config w) fs s')) = trace s' @ evs" "made_dirs evs = []"
      by blast
    then have "trace (final (forEach (copy_config w) (f # fs) s))
                 = trace s @ (CopyFile (src f) (dest f) # evs)
               \<and> made_dirs (CopyFile (src f) (dest f) # evs) = []"
      using Inr s' by simp
    then show ?thesis by blast
  qed
qed

text \<open>The third copy throws wherever the directory of its destination is missing, and
  the run of the three copies can only end well from a state that has it.\<close>

lemma third_copy_faults:
  assumes "files s' (configs_dir home) \<noteq> Some Dir"
  shows "outcome (copy_config w (configFiles w home ! 2) s') = Some (Uncaught ''copyFileSync'')"
  using assms copy_config_result [of w "configFiles w home ! 2" s']
  by (auto simp: configFiles_eq dirname_lspconfig configs_dir_eq)

lemma copies_fault_without_configs_dir:
  assumes "files s (configs_dir home) \<noteq> Some Dir"
  shows "\<exists>e. outcome (forEach (copy_config w) (configFiles w home) s) = Some (Uncaught e)"
proof -
  obtain f1 f2 f3 where fs: "configFiles w home = [f1, f2, f3]"
    and d1: "dest f1 \<noteq> configs_dir home" and d2: "dest f2 \<noteq> configs_dir home"
    and f3: "f3 = configFiles w home ! 2"
    by (simp add: configFiles_eq configs_dir_eq)
  have run: "forEach (copy_config w) [f1, f2, f3] t
      = and_then (copy_config w f1 t)
          (\<lambda>s1. and_then (copy_config w f2 s1)
          (\<lambda>s2. and_then (copy_config w f3 s2) Inr))" for t
    by (simp add: and_then_def split: sum.splits)
  from copy_config_result [of w f1 s] show ?thesis
  proof
    assume "copy_config w f1 s =
      Inl (Uncaught ''copyFileSync'', s\<lparr>trace := trace s @ [CopyFile (src f1) (dest f1)]\<rparr>)"
    then show ?thesis unfolding fs run by simp
  next
    assume "files s (dirname (dest f1)) = Some Dir \<and> copy_config w f1 s =
          Inr (log w (''Copied '' @ src f1 @ '' to '' @ dest f1)
                 (s\<lparr>trace := trace s @ [CopyFile (src f1) (dest f1)],
                    files := (files s)(dest f1 \<mapsto> File)\<rparr>))"
    then obtain s1 where c1: "copy_config w f1 s = Inr s1"
      and f1: "files s1 = (files s)(dest f1 \<mapsto> File)"
      by simp
    have n1: "files s1 (configs_dir home) \<noteq> Some Dir"
      using assms d1 by (simp add: f1)
    from copy_config_result [of w f2 s1] show ?thesis
    proof
      assume "copy_config w f2 s1 =
        Inl (Uncaught ''copyFileSync'', s1\<lparr>trace := trace s1 @ [CopyFile (src f2) (dest f2)]\<rparr>)"
      then show ?thesis unfolding fs run by (simp add: c1)
    next
      assume "files s1 (dirname (dest f2)) = Some Dir \<and> copy_config w f2 s1 =
          Inr (log w (''Copied '' @ src f2 @ '' to '' @ dest f2)
                 (s1\<lparr>trace := trace s1 @ [CopyFile (src f2) (dest f2)],
                    files := (files s1)(dest f2 \<mapsto> File)\<rparr>))"
      then obtain s2 where c2: "copy_config w f2 s1 = Inr s2"
        and f2: "files s2 = (files s1)(dest f2 \<mapsto> File)"
        by simp
      have n2: "files s2 (configs_dir home) \<noteq> Some Dir"
        using n1 d2 by (simp add: f2)
      from third_copy_faults [OF n2, of w]
      obtain s3 where "copy_config w f3 s2 = Inl (Uncaught ''copyFileSync'', s3)"
        unfolding f3 by (cases "copy_config w (configFiles w home ! 2) s2") auto
      then show ?thesis unfolding fs run by (simp add: c1 c2)
    qed
  qed
qed

section \<open>Which directories the script makes\<close>

lemma made_only_log [simp]:
  "made_only D (log w m s) = made_only D s"
  "made_only D (logError w m s) = made_only D s"
  by (simp_all add: made_only_def)

lemma made_only_and_then:
  assumes "made_only D (final r)"
      and "\<And>s'. made_only D s' \<Longrightarrow> made_only D (final (k s'))"
  shows "made_only D (final (and_then r k))"
proof (cases r)
  case (Inl a)
  with assms(1) show ?thesis by simp
next
  case (Inr s')
  with assms show ?thesis by simp
qed

lemma made_only_runCommand:
  "made_only D s \<Longrightarrow> made_only D (final (runCommand w c s))"
  by (simp add: made_only_def runCommand_trace made_dirs_append)

lemma made_only_mkdirSync:
  "p \<in> D \<Longrightarrow> made_only D s \<Longrightarrow> made_only D (final (mkdirSync_recursive p s))"
  using mkdirSync_recursive_result [of p s]
  by (auto simp: made_only_def made_dirs_append)

lemma made_only_rmdirSync:
  "made_only D s \<Longrightarrow> made_only D (final (rmdirSync_recursive w p s))"
  by (simp add: made_only_def rmdirSync_recursive_def made_dirs_append)

lemma made_only_unlinkSync:
  "made_only D s \<Longrightarrow> made_only D (final (unlinkSync p s))"
  by (simp add: made_only_def unlinkSync_def Let_def made_dirs_append)

lemma made_only_copy_config:
  "made_only D s \<Longrightarrow> made_only D (final (copy_config w f s))"
  by (simp add: made_only_def copy_config_trace made_dirs_append)

lemma check_prereq_trace:
  "trace (final (check_prereq w p s)) = trace s @ [Spawn (command p)]"
  by (cases rule: check_prereq_cases [of w s p]) simp_all

lemma made_only_check_prereq:
  "made_only D s \<Longrightarrow> made_only D (final (check_prereq w p s))"
  by (simp add: made_only_def check_prereq_trace made_dirs_append)

lemma made_only_forEach:
  assumes "\<And>x t. made_only D t \<Longrightarrow> made_only D (final (f x t))"
      and "made_only D s"
  shows "made_only D (final (forEach f xs s))"
  using assms(2)
proof (induction xs arbitrary: s)
  case Nil
  then show ?case by simp
next
  case (Cons x xs)
  show ?case
    unfolding forEach.simps
  proof (rule made_only_and_then)
    show "made_only D (final (f x s))" using Cons.prems by (rule assms(1))
    show "made_only D (final (forEach f xs s'))" if "made_only D s'" for s'
      using that by (rule Cons.IH)
  qed
qed

lemma made_only_editor_install:
  assumes "made_only D s"
  shows "made_only D (final (editor_install w s))"
proof -
  define s1 where "s1 = log w ''Checking if NeoVim is installed...'' s"
  obtain r fs' where c: "child w (length (trace s1)) ''nvim --version'' (files s1) = (r, fs')"
    by (cases "child w (length (trace s1)) ''nvim --version'' (files s1)")
  define s2 where "s2 = s1\<lparr>files := fs', trace := trace s1 @ [Spawn ''nvim --version'']\<rparr>"
  have s2: "made_only D s2"
    using assms by (simp add: s2_def s1_def made_only_def made_dirs_append)
  show ?thesis
  proof (cases r)
    case (Completed out)
    then have "editor_install w s = Inr (log w ''NeoVim is already installed.'' s2)"
      unfolding editor_install_def s1_def [symmetric] Let_def execSync_eq [OF c] s2_def
      by simp
    then show ?thesis using s2 by simp
  next
    case (Failed e)
    then have "editor_install w s =
        and_then (runCommand w ''sudo apt-get install neovim'' (log w ''Installing NeoVim...'' s2))
          (\<lambda>s3. Inr (log w ''NeoVim installation completed.'' s3))"
      unfolding editor_install_def s1_def [symmetric] Let_def execSync_eq [OF c] s2_def
      by simp
    then show ?thesis
      using s2 by (auto intro!: made_only_and_then made_only_runCommand)
  qed
qed

lemma made_only_font_install:
  assumes "made_only D s" and "\<And>home. HOME w = Some home \<Longrightarrow> fontDir home \<in> D"
  shows "made_only D (final (font_install w s))"
proof (cases "HOME w")
  case None
  then show ?thesis using assms(1) by (simp add: font_install_def)
next
  case (Some home)
  then have "fontDir home \<in> D" by (rule assms(2))
  then show ?thesis
    unfolding font_install_def Let_def Some option.case
    using assms(1)
    by (intro made_only_and_then)
       (auto intro: made_only_runCommand made_only_mkdirSync made_only_unlinkSync)
qed

lemma made_only_distribution_setup:
  assumes "made_only D s"
  shows "made_only D (final (distribution_setup w s))"
proof (cases "HOME w")
  case None
  then show ?thesis using assms by (simp add: distribution_setup_def)
next
  case (Some home)
  show ?thesis
    unfolding distribution_setup_def Let_def Some option.case
    using assms
    by (intro made_only_and_then)
       (auto intro: made_only_runCommand made_only_rmdirSync intro!: made_only_and_then)
qed

lemma made_only_configure:
  assumes "made_only D s" and "\<And>home. HOME w = Some home \<Longrightarrow> customDir home \<in> D"
  shows "made_only D (final (configure w s))"
proof (cases "HOME w")
  case None
  then show ?thesis using assms(1) by (simp add: configure_def)
next
  case (Some home)
  then have "customDir home \<in> D" by (rule assms(2))
  then show ?thesis
    unfolding configure_def Let_def Some option.case
    using assms(1)
    by (intro made_only_and_then made_only_forEach)
       (auto intro: made_only_mkdirSync made_only_copy_config)
qed

lemma made_only_lsp_install:
  assumes "made_only D s"
  shows "made_only D (final (lsp_install w s))"
  unfolding lsp_install_def
  using assms
  by (intro made_only_and_then) (auto intro: made_only_runCommand)

lemma made_only_finish [simp]: "made_only D (finish w s) = made_only D s"
  by (simp add: made_only_def finish_def)

lemma made_only_main:
  assumes "HOME w = Some home"
  shows "made_only {fontDir home, customDir home} (final (main w fs0))"
  unfolding main_def gate_def provisioning_def
proof (intro made_only_and_then made_only_forEach)
  show "made_only {fontDir home, customDir home} (initial fs0)"
    by (simp add: made_only_def initial_def)
qed (auto intro: made_only_check_prereq made_only_editor_install made_only_font_install
      made_only_distribution_setup made_only_configure made_only_lsp_install
      simp: assms)

section \<open>Facts about the configuration step\<close>

lemma configure_made_dirs:
  assumes "HOME w = Some home"
  shows "\<exists>evs. trace (final (configure w s)) = trace s @ evs
          \<and> made_dirs evs = (if existsSync (customDir home) s then [] else [customDir home])"
proof -
  define s1 where "s1 = log w ''Configuring NVChad and LSPs...'' s"
  have rest: "\<exists>evs. trace (final (and_then (forEach (copy_config w) (configFiles w home) t)
                 (\<lambda>s3. Inr (log w ''NVChad and LSPs configuration completed.'' s3))))
               = trace t @ evs \<and> made_dirs evs = []" for t
  proof -
    from forEach_copy_config_made_dirs [of w "configFiles w home" t]
    obtain evs where "trace (final (forEach (copy_config w) (configFiles w home) t)) = trace t @ evs"
      "made_dirs evs = []" by blast
    then show ?thesis
      by (cases "forEach (copy_config w) (configFiles w home) t") auto
  qed
  show ?thesis
  proof (cases "existsSync (customDir home) s")
    case True
    then have "existsSync (customDir home) s1" by (simp add: existsSync_def s1_def)
    then have "configure w s = and_then (forEach (copy_config w) (configFiles w home) s1)
                 (\<lambda>s3. Inr (log w ''NVChad and LSPs configuration completed.'' s3))"
      unfolding configure_def s1_def [symmetric] Let_def by (simp add: assms)
    with rest [of s1] True show ?thesis by (simp add: s1_def)
  next
    case False
    then have absent: "\<not> existsSync (customDir home) s1" by (simp add: existsSync_def s1_def)
    have run: "configure w s = and_then (mkdirSync_recursive (customDir home) s1)
                 (\<lambda>s2. and_then (forEach (copy_config w) (configFiles w home) s2)
                 (\<lambda>s3. Inr (log w ''NVChad and LSPs configuration completed.'' s3)))"
      unfolding configure_def s1_def [symmetric] Let_def using absent by (simp add: assms)
    from mkdirSync_recursive_result [of "customDir home" s1] show ?thesis
    proof
      assume "mkdirSync_recursive (customDir home) s1 =
                Inl (Uncaught ''mkdirSync'', s1\<lparr>trace := trace s1 @ [Mkdir (customDir home)]\<rparr>)"
      then have "trace (final (configure w s)) = trace s @ [Mkdir (customDir home)]"
        unfolding run by (simp add: s1_def)
      with False show ?thesis by simp
    next
      assume m: "mkdirSync_recursive (customDir home) s1 =
        Inr (s1\<lparr>trace := trace s1 @ [Mkdir (customDir home)],
               files := (\<lambda>q. if q \<in> set (ancestors (customDir home) @ [customDir home])
                              then Some Dir else files s1 q)\<rparr>)"
      define s2 where "s2 = s1\<lparr>trace := trace s1 @ [Mkdir (customDir home)],
               files := (\<lambda>q. if q \<in> set (ancestors (customDir home) @ [customDir home])
                              then Some Dir else files s1 q)\<rparr>"
      from rest [of s2] obtain evs where
        "trace (final (and_then (forEach (copy_config w) (configFiles w home) s2)
                 (\<lambda>s3. Inr (log w ''NVChad and LSPs configuration completed.'' s3))))
               = trace s2 @ evs" "made_dirs evs = []" by blast
      then have "trace (final (configure w s)) = trace s @ (Mkdir (customDir home) # evs)
                 \<and> made_dirs (Mkdir (customDir home) # evs) = [customDir home]"
        unfolding run m s2_def [symmetric] by (simp add: s2_def s1_def)
      with False show ?thesis by auto
    qed
  qed
qed

lemma configure_needs_configs_dir:
  assumes "HOME w = Some home" and "files s (configs_dir home) \<noteq> Some Dir"
  shows "\<exists>e. outcome (configure w s) = Some (Uncaught e)"
proof -
  define s1 where "s1 = log w ''Configuring NVChad and LSPs...'' s"
  have n1: "files s1 (configs_dir home) \<noteq> Some Dir" using assms(2) by (simp add: s1_def)
  have rest: "\<exists>e. outcome (and_then (forEach (copy_config w) (configFiles w home) t)
                 (\<lambda>s3. Inr (log w ''NVChad and LSPs configuration completed.'' s3)))
               = Some (Uncaught e)" if "files t (configs_dir home) \<noteq> Some Dir" for t
  proof -
    from copies_fault_without_configs_dir [OF that, of w]
    obtain e where "outcome (forEach (copy_config w) (configFiles w home) t) = Some (Uncaught e)"
      by blast
    then show ?thesis
      by (cases "forEach (copy_config w) (configFiles w home) t") auto
  qed
  have run: "configure w s =
      and_then (if \<not> existsSync (customDir home) s1
                then mkdirSync_recursive (customDir home) s1 else Inr s1)
        (\<lambda>s2. and_then (forEach (copy_config w) (configFiles w home) s2)
        (\<lambda>s3. Inr (log w ''NVChad and LSPs configuration completed.'' s3)))"
    unfolding configure_def s1_def [symmetric] Let_def by (simp add: assms(1))
  show ?thesis
  proof (cases "existsSync (customDir home) s1")
    case True
    then show ?thesis unfolding run using rest [OF n1] by simp
  next
    case False
    from mkdirSync_recursive_result [of "customDir home" s1] show ?thesis
    proof
      assume "mkdirSync_recursive (customDir home) s1 =
                Inl (Uncaught ''mkdirSync'', s1\<lparr>trace := trace s1 @ [Mkdir (customDir home)]\<rparr>)"
      then show ?thesis unfolding run using False by simp
    next
      assume m: "mkdirSync_recursive (customDir home) s1 =
        Inr (s1\<lparr>trace := trace s1 @ [Mkdir (customDir home)],
               files := (\<lambda>q. if q \<in> set (ancestors (customDir home) @ [customDir home])
                              then Some Dir else files s1 q)\<rparr>)"
      define s2 where "s2 = s1\<lparr>trace := trace s1 @ [Mkdir (customDir home)],
               files := (\<lambda>q. if q \<in> set (ancestors (customDir home) @ [customDir home])
                              then Some Dir else files s1 q)\<rparr>"
      have "files s2 (configs_dir home) = files s1 (configs_dir home)"
        using configs_dir_not_made_with_customDir [of home] by (simp add: s2_def)
      with n1 have "files s2 (configs_dir home) \<noteq> Some Dir" by simp
      from rest [OF this] show ?thesis
        unfolding run using False by (simp add: m s2_def)
    qed
  qed
qed

section \<open>The logger\<close>

text \<open>
  Claim C9. For every message, \<open>log\<close> and \<open>logError\<close> each hand one line to the append
  stream of the log file: the clock's ISO string in brackets, a blank, \<open>ERROR: \<close> for an
  error and nothing for an informational entry, the message and a line feed; that is the
  rendering of a log entry with this timestamp, severity INFO or ERROR, and message. The
  message also goes to standard output for \<open>log\<close> and to standard error for
  \<open>logError\<close>, and not to the other stream.
\<close>

theorem logger_contract:
  "logStream (log w m s) =
     logStream s @ [spec_line \<lparr>timestamp = toISOString w (dates s), severity = INFO, message = m\<rparr>]
   \<and> spec_line \<lparr>timestamp = toISOString w (dates s), severity = INFO, message = m\<rparr>
       = ''['' @ toISOString w (dates s) @ ''] '' @ m @ newline
   \<and> console_log (log w m s) = console_log s @ [m]
   \<and> console_error (log w m s) = console_error s
   \<and> logStream (logError w m s) =
     logStream s @ [spec_line \<lparr>timestamp = toISOString w (dates s), severity = ERROR, message = m\<rparr>]
   \<and> spec_line \<lparr>timestamp = toISOString w (dates s), severity = ERROR, message = m\<rparr>
       = ''['' @ toISOString w (dates s) @ ''] ERROR: '' @ m @ newline
   \<and> console_error (logError w m s) = console_error s @ [m]
   \<and> console_log (logError w m s) = console_log s"
  by (simp add: spec_line_def)

theorem logger_contract_witness:
  "logStream (log failing_host ''hello'' (initial Map.empty))
     = [''[2024-05-01T10:00:00.000Z] hello'' @ newline]
   \<and> console_log (log failing_host ''hello'' (initial Map.empty)) = [''hello'']
   \<and> logStream (logError failing_host ''no'' (initial Map.empty))
     = [''[2024-05-01T10:00:00.000Z] ERROR: no'' @ newline]
   \<and> console_error (logError failing_host ''no'' (initial Map.empty)) = [''no'']"
proof -
  note info = logger_contract [of failing_host "''hello''" "initial Map.empty"]
  note err = logger_contract [of failing_host "''no''" "initial Map.empty"]
  have "logStream (log failing_host ''hello'' (initial Map.empty))
          = logStream (initial Map.empty)
            @ [''['' @ toISOString failing_host (dates (initial Map.empty)) @ ''] ''
                 @ ''hello'' @ newline]"
    using info by metis
  also have "\<dots> = [''[2024-05-01T10:00:00.000Z] hello'' @ newline]"
    by (simp add: failing_host_def initial_def)
  finally have a: "logStream (log failing_host ''hello'' (initial Map.empty))
     = [''[2024-05-01T10:00:00.000Z] hello'' @ newline]" .
  have "console_log (log failing_host ''hello'' (initial Map.empty))
          = console_log (initial Map.empty) @ [''hello'']"
    using info by blast
  then have b: "console_log (log failing_host ''hello'' (initial Map.empty)) = [''hello'']"
    by (simp add: initial_def)
  have "logStream (logError failing_host ''no'' (initial Map.empty))
          = logStream (initial Map.empty)
            @ [''['' @ toISOString failing_host (dates (initial Map.empty)) @ ''] ERROR: ''
                 @ ''no'' @ newline]"
    using err by metis
  also have "\<dots> = [''[2024-05-01T10:00:00.000Z] ERROR: no'' @ newline]"
    by (simp add: failing_host_def initial_def)
  finally have c: "logStream (logError failing_host ''no'' (initial Map.empty))
     = [''[2024-05-01T10:00:00.000Z] ERROR: no'' @ newline]" .
  have "console_error (logError failing_host ''no'' (initial Map.empty))
          = console_error (initial Map.empty) @ [''no'']"
    using err by blast
  then have d: "console_error (logError failing_host ''no'' (initial Map.empty)) = [''no'']"
    by (simp add: initial_def)
  show ?thesis using a b c d by blast
qed

section \<open>The command runner\<close>

text \<open>
  Claim C3. For every command line passed to the command runner: when the child exits
  with code 0, one confirmation line containing the command text is logged (one INFO
  entry handed to the log stream, and the same message on standard output), nothing goes
  to the error stream, and the runner returns; when the child exits with another code or
  cannot be spawned, an error line naming the command and then the underlying error detail
  are logged (two ERROR entries handed to the log stream, and the two messages on standard
  error) and the process exits with status 1. Either way the command is run once (no
  retry), and after a failure no continuation runs.
\<close>

theorem runCommand_contract:
  "(child w (length (trace s)) c (files s) = (Completed out, fs') \<longrightarrow>
      outcome (runCommand w c s) = None
      \<and> logStream (final (runCommand w c s))
          = logStream s
            @ [spec_line \<lparr>timestamp = toISOString w (dates s), severity = INFO,
                          message = ''Command executed: '' @ c\<rparr>]
      \<and> console_log (final (runCommand w c s)) = console_log s @ [''Command executed: '' @ c]
      \<and> console_error (final (runCommand w c s)) = console_error s
      \<and> trace (final (runCommand w c s)) = trace s @ [Spawn c]
      \<and> files (final (runCommand w c s)) = fs')
   \<and> (child w (length (trace s)) c (files s) = (Failed e, fs'') \<longrightarrow>
      outcome (runCommand w c s) = Some (Exit 1)
      \<and> logStream (final (runCommand w c s))
          = logStream s
            @ [spec_line \<lparr>timestamp = toISOString w (dates s), severity = ERROR,
                          message = ''Error executing command: '' @ c\<rparr>,
               spec_line \<lparr>timestamp = toISOString w (Suc (dates s)), severity = ERROR,
                          message = e\<rparr>]
      \<and> console_error (final (runCommand w c s)) =
          console_error s @ [''Error executing command: '' @ c, e]
      \<and> console_log (final (runCommand w c s)) = console_log s
      \<and> trace (final (runCommand w c s)) = trace s @ [Spawn c]
      \<and> (\<forall>k. and_then (runCommand w c s) k = runCommand w c s))"
  by (simp add: runCommand_Completed runCommand_Failed spec_line_def)

theorem runCommand_contract_witness:
  "child working_host (length (trace (initial Map.empty))) ''fc-cache -f''
      (files (initial Map.empty)) = (Completed [], Map.empty)
   \<and> outcome (runCommand working_host ''fc-cache -f'' (initial Map.empty)) = None
   \<and> logStream (final (runCommand working_host ''fc-cache -f'' (initial Map.empty)))
       = [''[2024-05-01T10:00:00.000Z] Command executed: fc-cache -f'' @ newline]
   \<and> console_log (final (runCommand working_host ''fc-cache -f'' (initial Map.empty)))
       = console_log (initial Map.empty) @ [''Command executed: '' @ ''fc-cache -f'']
   \<and> child failing_host (length (trace (initial Map.empty))) ''fc-cache -f''
      (files (initial Map.empty)) = (Failed ''Command failed: fc-cache -f'', Map.empty)
   \<and> outcome (runCommand failing_host ''fc-cache -f'' (initial Map.empty)) = Some (Exit 1)
   \<and> logStream (final (runCommand failing_host ''fc-cache -f'' (initial Map.empty)))
       = [''[2024-05-01T10:00:00.000Z] ERROR: Error executing command: fc-cache -f'' @ newline,
          ''[2024-05-01T10:00:00.000Z] ERROR: Command failed: fc-cache -f'' @ newline]
   \<and> console_error (final (runCommand failing_host ''fc-cache -f'' (initial Map.empty)))
       = console_error (initial Map.empty)
         @ [''Error executing command: '' @ ''fc-cache -f'', ''Command failed: fc-cache -f'']"
proof -
  have ok: "child working_host (length (trace (initial Map.empty))) ''fc-cache -f''
      (files (initial Map.empty)) = (Completed [], Map.empty)"
    by (simp add: working_host_def initial_def fontZip_def fontUrl_def clone_command_def)
  have ko: "child failing_host (length (trace (initial Map.empty))) ''fc-cache -f''
      (files (initial Map.empty)) = (Failed ''Command failed: fc-cache -f'', Map.empty)"
    by (simp add: failing_host_def initial_def)
  note good = runCommand_contract [of working_host "initial Map.empty" "''fc-cache -f''" "[]"
      Map.empty "''Command failed: fc-cache -f''" Map.empty]
  note poor = runCommand_contract [of failing_host "initial Map.empty" "''fc-cache -f''" "[]"
      Map.empty "''Command failed: fc-cache -f''" Map.empty]
  from good ok
  have "logStream (final (runCommand working_host ''fc-cache -f'' (initial Map.empty)))
          = logStream (initial Map.empty)
            @ [spec_line \<lparr>timestamp = toISOString working_host (dates (initial Map.empty)),
                          severity = INFO, message = ''Command executed: '' @ ''fc-cache -f''\<rparr>]"
    by blast
  also have "\<dots> = [''[2024-05-01T10:00:00.000Z] Command executed: fc-cache -f'' @ newline]"
    by (simp add: spec_line_def working_host_def initial_def)
  finally have a: "logStream (final (runCommand working_host ''fc-cache -f'' (initial Map.empty)))
       = [''[2024-05-01T10:00:00.000Z] Command executed: fc-cache -f'' @ newline]" .
  from poor ko
  have "logStream (final (runCommand failing_host ''fc-cache -f'' (initial Map.empty)))
          = logStream (initial Map.empty)
            @ [spec_line \<lparr>timestamp = toISOString failing_host (dates (initial Map.empty)),
                          severity = ERROR,
                          message = ''Error executing command: '' @ ''fc-cache -f''\<rparr>,
               spec_line \<lparr>timestamp = toISOString failing_host (Suc (dates (initial Map.empty))),
                          severity = ERROR, message = ''Command failed: fc-cache -f''\<rparr>]"
    by blast
  also have "\<dots> =
      [''[2024-05-01T10:00:00.000Z] ERROR: Error executing command: fc-cache -f'' @ newline,
       ''[2024-05-01T10:00:00.000Z] ERROR: Command failed: fc-cache -f'' @ newline]"
    by (simp add: spec_line_def failing_host_def initial_def)
  finally have b: "logStream (final (runCommand failing_host ''fc-cache -f'' (initial Map.empty)))
       = [''[2024-05-01T10:00:00.000Z] ERROR: Error executing command: fc-cache -f'' @ newline,
          ''[2024-05-01T10:00:00.000Z] ERROR: Command failed: fc-cache -f'' @ newline]" .
  show ?thesis using ok ko good poor a b by blast
qed

text \<open>
  Claim C4, as stated, has a failing invocation produce exactly one log entry of severity
  ERROR. The runner calls \<open>logError\<close> twice: on a host where \<open>fc-cache -f\<close> fails, the
  invocation leaves two ERROR entries in the log, and both hold the command text.
\<close>

theorem two_error_entries_counterexample:
  "outcome (runCommand failing_host ''fc-cache -f'' (initial Map.empty)) = Some (Exit 1)
   \<and> logStream (final (runCommand failing_host ''fc-cache -f'' (initial Map.empty)))
       = [''[2024-05-01T10:00:00.000Z] ERROR: Error executing command: fc-cache -f'' @ newline,
          ''[2024-05-01T10:00:00.000Z] ERROR: Command failed: fc-cache -f'' @ newline]
   \<and> length (console_error (final (runCommand failing_host ''fc-cache -f'' (initial Map.empty))))
       \<noteq> 1"
proof -
  have ko: "child failing_host (length (trace (initial Map.empty))) ''fc-cache -f''
      (files (initial Map.empty)) = (Failed ''Command failed: fc-cache -f'', Map.empty)"
    by (simp add: failing_host_def initial_def)
  show ?thesis
    unfolding runCommand_Failed [OF ko]
    by (simp add: initial_def failing_host_def)
qed

text \<open>
  Claim C4, amended. Every invocation of the command runner that fails produces exactly
  two log entries of severity ERROR, the first referencing the failing command text and the
  second holding the underlying error detail, and no other log entry; after that the
  process has exited with status 1 and whatever was to follow, any provisioning step
  included, does not run.
\<close>

theorem runCommand_failure_entries:
  "child w (length (trace s)) c (files s) = (Failed e, fs') \<longrightarrow>
     outcome (runCommand w c s) = Some (Exit 1)
     \<and> logStream (final (runCommand w c s))
         = logStream s
           @ [spec_line \<lparr>timestamp = toISOString w (dates s), severity = ERROR,
                         message = ''Error executing command: '' @ c\<rparr>,
              spec_line \<lparr>timestamp = toISOString w (Suc (dates s)), severity = ERROR,
                         message = e\<rparr>]
     \<and> length (console_error (final (runCommand w c s))) = length (console_error s) + 2
     \<and> (\<forall>k. and_then (runCommand w c s) k
              = Inl (Exit 1, final (runCommand w c s)))
     \<and> (\<forall>k. final (and_then (runCommand w c s) k) = final (runCommand w c s))"
  by (simp add: runCommand_Failed spec_line_def)

theorem runCommand_failure_entries_witness:
  "child failing_host (length (trace (initial Map.empty))) ''fc-cache -f''
      (files (initial Map.empty)) = (Failed ''Command failed: fc-cache -f'', Map.empty)
   \<and> outcome (runCommand failing_host ''fc-cache -f'' (initial Map.empty)) = Some (Exit 1)
   \<and> length (console_error (final (runCommand failing_host ''fc-cache -f'' (initial Map.empty))))
       = length (console_error (initial Map.empty)) + 2
   \<and> and_then (runCommand failing_host ''fc-cache -f'' (initial Map.empty))
        (lsp_install failing_host)
       = Inl (Exit 1, final (runCommand failing_host ''fc-cache -f'' (initial Map.empty)))"
proof -
  have ko: "child failing_host (length (trace (initial Map.empty))) ''fc-cache -f''
      (files (initial Map.empty)) = (Failed ''Command failed: fc-cache -f'', Map.empty)"
    by (simp add: failing_host_def initial_def)
  show ?thesis
    using ko
      runCommand_failure_entries [of failing_host "initial Map.empty" "''fc-cache -f''"
                              "''Command failed: fc-cache -f''" Map.empty]
    by blast
qed

section \<open>The prerequisite gate\<close>

text \<open>
  Claim C1, as stated, ends with an instance that the comparison rule refutes: under the
  code's comparison, which is the lexicographic order on code units, the string 9.0.0 is
  not less than 10.0.0, since the code unit of 9 is above that of 1.
\<close>

theorem nine_not_below_ten_counterexample:
  "\<not> js_lt ''9.0.0'' ''10.0.0'' \<and> \<not> lexicographic_less ''9.0.0'' ''10.0.0''"
proof -
  have "\<not> js_lt ''9.0.0'' ''10.0.0''" by simp
  then show ?thesis using js_lt_lexord by blast
qed

text \<open>
  Claim C1, amended. For every prerequisite spec whose probe prints \<open>out\<close>, with \<open>d\<close> the
  trimmed output and \<open>m\<close> the minimum, each stripped of one leading \<open>v\<close>: the check
  passes if and only if \<open>d\<close> is not less than \<open>m\<close> in the lexicographic order of strings
  (no semantic versioning). In particular 10.0.0 compares less than 9.0.0 under this rule,
  and 9.0.0 does not compare less than 10.0.0.
\<close>

theorem gate_comparison_is_lexicographic:
  "(child w (length (trace s)) (command p) (files s) = (Completed out, fs') \<longrightarrow>
      (outcome (check_prereq w p s) = None) =
        (\<not> lexicographic_less (replace_leading_v (trim out))
                                (replace_leading_v (minVersion p))))
   \<and> lexicographic_less ''10.0.0'' ''9.0.0''
   \<and> \<not> lexicographic_less ''9.0.0'' ''10.0.0''"
proof -
  have "lexicographic_less ''10.0.0'' ''9.0.0''"
    unfolding js_lt_lexord [symmetric] by simp
  moreover have "\<not> lexicographic_less ''9.0.0'' ''10.0.0''"
    unfolding js_lt_lexord [symmetric] by simp
  ultimately show ?thesis
    by (simp add: check_prereq_Completed js_lt_lexord)
qed

text \<open>On a host whose npm prints 10.2.4 the check against the minimum 6.0.0 fails, and on
  a host whose npm prints 9.6.7 it passes.\<close>

theorem gate_comparison_is_lexicographic_witness:
  "child ten_host (length (trace (initial Map.empty))) (command npm_prereq)
      (files (initial Map.empty)) = (Completed (''10.2.4'' @ newline), Map.empty)
   \<and> lexicographic_less (replace_leading_v (trim (''10.2.4'' @ newline)))
                           (replace_leading_v (minVersion npm_prereq))
   \<and> outcome (check_prereq ten_host npm_prereq (initial Map.empty)) \<noteq> None
   \<and> child working_host (length (trace (initial Map.empty))) (command npm_prereq)
      (files (initial Map.empty)) = (Completed (''9.6.7'' @ newline), Map.empty)
   \<and> \<not> lexicographic_less (replace_leading_v (trim (''9.6.7'' @ newline)))
                           (replace_leading_v (minVersion npm_prereq))
   \<and> outcome (check_prereq working_host npm_prereq (initial Map.empty)) = None"
proof -
  have h: "child ten_host (length (trace (initial Map.empty))) (command npm_prereq)
             (files (initial Map.empty)) = (Completed (''10.2.4'' @ newline), Map.empty)"
    by (simp add: ten_host_def initial_def)
  have l: "lexicographic_less (replace_leading_v (trim (''10.2.4'' @ newline)))
                           (replace_leading_v (minVersion npm_prereq))"
    unfolding js_lt_lexord [symmetric]
    by (simp add: trim_def js_whitespace_def newline_def npm_prereq_def)
  have h': "child working_host (length (trace (initial Map.empty))) (command npm_prereq)
             (files (initial Map.empty)) = (Completed (''9.6.7'' @ newline), Map.empty)"
    by (simp add: working_host_def initial_def npm_prereq_def)
  have l': "\<not> lexicographic_less (replace_leading_v (trim (''9.6.7'' @ newline)))
                           (replace_leading_v (minVersion npm_prereq))"
    unfolding js_lt_lexord [symmetric]
    by (simp add: trim_def js_whitespace_def newline_def npm_prereq_def)
  show ?thesis
    using h l h' l'
      gate_comparison_is_lexicographic
        [of ten_host "initial Map.empty" npm_prereq "''10.2.4'' @ newline" Map.empty]
      gate_comparison_is_lexicographic
        [of working_host "initial Map.empty" npm_prereq "''9.6.7'' @ newline" Map.empty]
    by blast
qed




section \<open>The gate and the run as a whole\<close>

text \<open>
  Claim C5. For every prerequisite spec of the list: when the run reaches it (the specs
  before it have passed) and its probe command cannot be executed, the process exits
  with status 1, the whole run has logged exactly one error message, which names the tool
  and tells the user to install it, and no provisioning step has run.
\<close>

theorem missing_tool_stops_run:
  "prerequisites = ys @ p # zs
   \<and> forEach (check_prereq w) ys (initial fs0) = Inr s1
   \<and> child w (length (trace s1)) (command p) (files s1) = (Failed e, fs')
   \<longrightarrow> outcome (main w fs0) = Some (Exit 1)
       \<and> console_error (final (main w fs0))
           = [name p @ '' is not installed. Please install it and run the script again.'']
       \<and> logStream (final (main w fs0))
           = logStream s1
             @ [spec_line \<lparr>timestamp = toISOString w (dates s1), severity = ERROR,
                           message = not_installed_message p\<rparr>]
       \<and> trace (final (main w fs0)) = map (\<lambda>p. Spawn (command p)) (ys @ [p])
       \<and> no_provisioning (final (main w fs0))"
proof (intro impI, elim conjE)
  assume split: "prerequisites = ys @ p # zs"
    and before: "forEach (check_prereq w) ys (initial fs0) = Inr s1"
    and probe: "child w (length (trace s1)) (command p) (files s1) = (Failed e, fs')"
  note stop = check_prereq_Failed [OF probe]
  then have out: "outcome (check_prereq w p s1) \<noteq> None" by simp
  note facts = gate_stopped_state [OF split before out]
  have ys: "set ys \<subseteq> set prerequisites" unfolding split by auto
  from forEach_check_passed [OF ys before]
  have tr: "trace s1 = map (\<lambda>p. Spawn (command p)) ys" by (simp add: initial_def)
  show "outcome (main w fs0) = Some (Exit 1)
       \<and> console_error (final (main w fs0))
           = [name p @ '' is not installed. Please install it and run the script again.'']
       \<and> logStream (final (main w fs0))
           = logStream s1
             @ [spec_line \<lparr>timestamp = toISOString w (dates s1), severity = ERROR,
                           message = not_installed_message p\<rparr>]
       \<and> trace (final (main w fs0)) = map (\<lambda>p. Spawn (command p)) (ys @ [p])
       \<and> no_provisioning (final (main w fs0))"
    using facts(3) unfolding facts(1)
    by (simp add: stop facts(4) tr not_installed_message_def spec_line_def)
qed

text \<open>On a host with Node.js and nothing else, the run stops at npm.\<close>

theorem missing_tool_stops_run_witness:
  "prerequisites = [node_prereq] @ npm_prereq # [git_prereq]
   \<and> forEach (check_prereq node_only_host) [node_prereq] (initial Map.empty)
       = Inr (final (check_prereq node_only_host node_prereq (initial Map.empty)))
   \<and> child node_only_host
        (length (trace (final (check_prereq node_only_host node_prereq (initial Map.empty)))))
        (command npm_prereq)
        (files (final (check_prereq node_only_host node_prereq (initial Map.empty))))
       = (Failed ''Command failed: npm --version'', Map.empty)
   \<and> outcome (main node_only_host Map.empty) = Some (Exit 1)
   \<and> console_error (final (main node_only_host Map.empty))
       = [name npm_prereq @ '' is not installed. Please install it and run the script again.'']
   \<and> trace (final (main node_only_host Map.empty))
       = map (\<lambda>p. Spawn (command p)) ([node_prereq] @ [npm_prereq])
   \<and> no_provisioning (final (main node_only_host Map.empty))"
proof -
  have h: "child node_only_host (length (trace (initial Map.empty))) (command node_prereq)
             (files (initial Map.empty)) = (Completed (''v18.17.0'' @ newline), Map.empty)"
    by (simp add: node_only_host_def working_host_def initial_def node_prereq_def)
  have l: "\<not> js_lt (replace_leading_v (trim (''v18.17.0'' @ newline)))
            (replace_leading_v (minVersion node_prereq))"
    by (simp add: trim_def js_whitespace_def newline_def node_prereq_def)
  have c: "check_prereq node_only_host node_prereq (initial Map.empty)
             = Inr (log node_only_host
                      (name node_prereq @ '' version: '' @ trim (''v18.17.0'' @ newline))
                      ((initial Map.empty)\<lparr>files := Map.empty,
                          trace := trace (initial Map.empty) @ [Spawn (command node_prereq)]\<rparr>))"
    using check_prereq_Completed [OF h] l by simp
  have a1: "prerequisites = [node_prereq] @ npm_prereq # [git_prereq]"
    by (simp add: prerequisites_def node_prereq_def npm_prereq_def git_prereq_def)
  have a2: "forEach (check_prereq node_only_host) [node_prereq] (initial Map.empty)
       = Inr (final (check_prereq node_only_host node_prereq (initial Map.empty)))"
    by (simp add: c)
  have a3: "child node_only_host
        (length (trace (final (check_prereq node_only_host node_prereq (initial Map.empty)))))
        (command npm_prereq)
        (files (final (check_prereq node_only_host node_prereq (initial Map.empty))))
       = (Failed ''Command failed: npm --version'', Map.empty)"
    unfolding c by (simp add: node_only_host_def npm_prereq_def initial_def)
  show ?thesis
    using a1 a2 a3
      missing_tool_stops_run [of "[node_prereq]" npm_prereq "[git_prereq]" node_only_host
        Map.empty "final (check_prereq node_only_host node_prereq (initial Map.empty))"
        "''Command failed: npm --version''" Map.empty]
    by blast
qed

text \<open>
  Claim C2. For every run: if the check of any prerequisite spec fails (the specs before
  it passed; the tool is missing or its version is below the minimum), the process ends
  with exit status 1 in the state that check left, and no provisioning step has run. And
  if a run shows anything of a provisioning step, then all three prerequisites passed, in
  list order, before it.
\<close>

theorem failed_prerequisite_blocks_provisioning:
  "(prerequisites = ys @ p # zs
    \<and> forEach (check_prereq w) ys (initial fs0) = Inr s1
    \<and> outcome (check_prereq w p s1) \<noteq> None
    \<longrightarrow> outcome (main w fs0) = Some (Exit 1)
        \<and> final (main w fs0) = final (check_prereq w p s1)
        \<and> no_provisioning (final (main w fs0)))
   \<and> (\<not> no_provisioning (final (main w fs0))
    \<longrightarrow> outcome (check_prereq w node_prereq (initial fs0)) = None
        \<and> outcome (check_prereq w npm_prereq
                      (final (check_prereq w node_prereq (initial fs0)))) = None
        \<and> outcome (check_prereq w git_prereq
                      (final (check_prereq w npm_prereq
                         (final (check_prereq w node_prereq (initial fs0)))))) = None)"
proof (intro conjI impI)
  assume a: "prerequisites = ys @ p # zs
    \<and> forEach (check_prereq w) ys (initial fs0) = Inr s1
    \<and> outcome (check_prereq w p s1) \<noteq> None"
  then have split: "prerequisites = ys @ p # zs"
    and before: "forEach (check_prereq w) ys (initial fs0) = Inr s1"
    and stop: "outcome (check_prereq w p s1) \<noteq> None"
    by simp_all
  note facts = gate_stopped_state [OF split before stop]
  show "outcome (main w fs0) = Some (Exit 1)" using facts(1,2) by simp
  show "final (main w fs0) = final (check_prereq w p s1)" using facts(1) by simp
  show "no_provisioning (final (main w fs0))" using facts(1,3) by simp
next
  assume seen: "\<not> no_provisioning (final (main w fs0))"
  define s1 where "s1 = final (check_prereq w node_prereq (initial fs0))"
  define s2 where "s2 = final (check_prereq w npm_prereq s1)"
  have node: "outcome (check_prereq w node_prereq (initial fs0)) = None"
  proof (rule ccontr)
    assume stop: "outcome (check_prereq w node_prereq (initial fs0)) \<noteq> None"
    have split: "prerequisites = [] @ node_prereq # [npm_prereq, git_prereq]"
      by (simp add: prerequisites_def node_prereq_def npm_prereq_def git_prereq_def)
    have before: "forEach (check_prereq w) [] (initial fs0) = Inr (initial fs0)" by simp
    from gate_stopped_state(1,3) [OF split before stop] seen show False by simp
  qed
  then have r1: "check_prereq w node_prereq (initial fs0) = Inr s1"
    unfolding s1_def by (cases "check_prereq w node_prereq (initial fs0)") auto
  have npm: "outcome (check_prereq w npm_prereq s1) = None"
  proof (rule ccontr)
    assume stop: "outcome (check_prereq w npm_prereq s1) \<noteq> None"
    have split: "prerequisites = [node_prereq] @ npm_prereq # [git_prereq]"
      by (simp add: prerequisites_def node_prereq_def npm_prereq_def git_prereq_def)
    have before: "forEach (check_prereq w) [node_prereq] (initial fs0) = Inr s1"
      by (simp add: r1)
    from gate_stopped_state(1,3) [OF split before stop] seen show False by simp
  qed
  then have r2: "check_prereq w npm_prereq s1 = Inr s2"
    unfolding s2_def by (cases "check_prereq w npm_prereq s1") auto
  have git: "outcome (check_prereq w git_prereq s2) = None"
  proof (rule ccontr)
    assume stop: "outcome (check_prereq w git_prereq s2) \<noteq> None"
    have split: "prerequisites = [node_prereq, npm_prereq] @ git_prereq # []"
      by (simp add: prerequisites_def node_prereq_def npm_prereq_def git_prereq_def)
    have before: "forEach (check_prereq w) [node_prereq, npm_prereq] (initial fs0) = Inr s2"
      by (simp add: r1 r2)
    from gate_stopped_state(1,3) [OF split before stop] seen show False by simp
  qed
  show "outcome (check_prereq w node_prereq (initial fs0)) = None" by (rule node)
  show "outcome (check_prereq w npm_prereq
                      (final (check_prereq w node_prereq (initial fs0)))) = None"
    using npm unfolding s1_def .
  show "outcome (check_prereq w git_prereq
                      (final (check_prereq w npm_prereq
                         (final (check_prereq w node_prereq (initial fs0)))))) = None"
    using git unfolding s2_def s1_def .
qed

text \<open>On a host with Node.js 12 the run stops at the first check; on a host that has the
  three tools and nothing else the run gets as far as the editor step.\<close>

theorem failed_prerequisite_blocks_provisioning_witness:
  "prerequisites = [] @ node_prereq # [npm_prereq, git_prereq]
   \<and> forEach (check_prereq old_node_host) [] (initial Map.empty) = Inr (initial Map.empty)
   \<and> outcome (check_prereq old_node_host node_prereq (initial Map.empty)) \<noteq> None
   \<and> outcome (main old_node_host Map.empty) = Some (Exit 1)
   \<and> no_provisioning (final (main old_node_host Map.empty))
   \<and> \<not> no_provisioning (final (main tools_only_host Map.empty))
   \<and> outcome (check_prereq tools_only_host node_prereq (initial Map.empty)) = None
   \<and> outcome (check_prereq tools_only_host git_prereq
                (final (check_prereq tools_only_host npm_prereq
                   (final (check_prereq tools_only_host node_prereq (initial Map.empty))))))
       = None"
proof -
  have a1: "prerequisites = [] @ node_prereq # [npm_prereq, git_prereq]"
    by (simp add: prerequisites_def node_prereq_def npm_prereq_def git_prereq_def)
  have a2: "forEach (check_prereq old_node_host) [] (initial Map.empty)
              = Inr (initial Map.empty)"
    by simp
  have h: "child old_node_host (length (trace (initial Map.empty))) (command node_prereq)
             (files (initial Map.empty)) = (Completed (''v12.0.0'' @ newline), Map.empty)"
    by (simp add: old_node_host_def initial_def node_prereq_def)
  have l: "js_lt (replace_leading_v (trim (''v12.0.0'' @ newline)))
            (replace_leading_v (minVersion node_prereq))"
    by (simp add: trim_def js_whitespace_def newline_def node_prereq_def)
  have a3: "outcome (check_prereq old_node_host node_prereq (initial Map.empty)) \<noteq> None"
    using check_prereq_Completed [OF h] l by simp
  have "Spawn ''nvim --version'' \<in> set (trace (final (main tools_only_host Map.empty)))"
    by (simp add: main_def gate_def prerequisites_def check_prereq_def execSync_def
        tools_only_host_def working_host_def initial_def trim_def js_whitespace_def
        newline_def provisioning_def editor_install_def runCommand_def Let_def)
  moreover have "Spawn ''nvim --version'' \<notin> set probes"
    by (simp add: probes_def prerequisites_def)
  ultimately have b: "\<not> no_provisioning (final (main tools_only_host Map.empty))"
    by (auto simp: no_provisioning_def list_all_iff)
  show ?thesis
    using a1 a2 a3 b
      failed_prerequisite_blocks_provisioning
        [of "[]" node_prereq "[npm_prereq, git_prereq]" old_node_host Map.empty
            "initial Map.empty"]
      failed_prerequisite_blocks_provisioning
        [of "[]" node_prereq "[npm_prereq, git_prereq]" tools_only_host Map.empty
            "initial Map.empty"]
    by blast
qed

section \<open>The provisioning steps\<close>






text \<open>
  Claim C10. With the configuration root \<open>path.join(HOME, '.config', 'nvim')\<close>, whatever
  HOME is: the custom directory is \<open>lua/custom\<close> under the root, the third configuration
  file goes to \<open>lua/plugins/configs/lspconfig.lua\<close> under the root, and its directory,
  \<open>lua/plugins/configs\<close>, is not below \<open>lua/custom\<close>. The configuration step makes one
  directory at most, \<open>lua/custom\<close> (with the directories above it) and only if it is
  absent, and in a whole run the script makes no directory but the font directory and
  \<open>lua/custom\<close>; neither call makes \<open>lua/plugins/configs\<close>. The third copy throws in
  every state that lacks that directory. So the step ends well only if the tree it starts
  from, the fresh clone, has the directory already, and otherwise the step ends in an
  exception nobody catches.
\<close>

theorem third_copy_needs_cloned_configs_dir:
  "HOME w = Some home \<longrightarrow>
     customDir home = nvimDir home @ ''/lua/custom''
     \<and> configs_dir home = nvimDir home @ ''/lua/plugins/configs''
     \<and> dest (configFiles w home ! 2) = configs_dir home @ ''/lspconfig.lua''
     \<and> dirname (dest (configFiles w home ! 2)) = configs_dir home
     \<and> \<not> below (customDir home) (dest (configFiles w home ! 2))
     \<and> made_dirs (drop (length (trace s)) (trace (final (configure w s))))
         = (if existsSync (customDir home) s then [] else [customDir home])
     \<and> configs_dir home \<notin> set (ancestors (customDir home) @ [customDir home])
     \<and> made_only {fontDir home, customDir home} (final (main w fs0))
     \<and> configs_dir home \<notin> set (ancestors (fontDir home) @ [fontDir home])
     \<and> (\<forall>t. files t (configs_dir home) \<noteq> Some Dir \<longrightarrow>
            outcome (copy_config w (configFiles w home ! 2) t) = Some (Uncaught ''copyFileSync''))
     \<and> (outcome (configure w s) = None \<longrightarrow> files s (configs_dir home) = Some Dir)
     \<and> (files s (configs_dir home) \<noteq> Some Dir \<longrightarrow>
           (\<exists>e. outcome (configure w s) = Some (Uncaught e)))"
proof
  assume home: "HOME w = Some home"
  have d: "dest (configFiles w home ! 2) = configs_dir home @ ''/lspconfig.lua''"
    by (simp add: configFiles_eq configs_dir_eq)
  have dn: "dirname (dest (configFiles w home ! 2)) = configs_dir home"
    by (simp add: configFiles_eq dirname_lspconfig configs_dir_eq)
  have outside: "\<not> below (customDir home) (dest (configFiles w home ! 2))"
    by (simp add: configFiles_eq below_def customDir_eq)
  from configure_made_dirs [OF home, of s]
  have made: "made_dirs (drop (length (trace s)) (trace (final (configure w s))))
         = (if existsSync (customDir home) s then [] else [customDir home])"
    by auto
  have third: "\<forall>t. files t (configs_dir home) \<noteq> Some Dir \<longrightarrow>
            outcome (copy_config w (configFiles w home ! 2) t) = Some (Uncaught ''copyFileSync'')"
    using third_copy_faults by blast
  have fault: "files s (configs_dir home) \<noteq> Some Dir \<longrightarrow>
           (\<exists>e. outcome (configure w s) = Some (Uncaught e))"
    using configure_needs_configs_dir [OF home] by blast
  then have only: "outcome (configure w s) = None \<longrightarrow> files s (configs_dir home) = Some Dir"
    by auto
  show "
customDir home = nvimDir home @ ''/lua/custom''
     \<and> configs_dir home = nvimDir home @ ''/lua/plugins/configs''
     \<and> dest (configFiles w home ! 2) = configs_dir home @ ''/lspconfig.lua''
     \<and> dirname (dest (configFiles w home ! 2)) = configs_dir home
     \<and> \<not> below (customDir home) (dest (configFiles w home ! 2))
     \<and> made_dirs (drop (length (trace s)) (trace (final (configure w s))))
         = (if existsSync (customDir home) s then [] else [customDir home])
     \<and> configs_dir home \<notin> set (ancestors (customDir home) @ [customDir home])
     \<and> made_only {fontDir home, customDir home} (final (main w fs0))
     \<and> configs_dir home \<notin> set (ancestors (fontDir home) @ [fontDir home])
     \<and> (\<forall>t. files t (configs_dir home) \<noteq> Some Dir \<longrightarrow>
            outcome (copy_config w (configFiles w home ! 2) t) = Some (Uncaught ''copyFileSync''))
     \<and> (outcome (configure w s) = None \<longrightarrow> files s (configs_dir home) = Some Dir)
     \<and> (files s (configs_dir home) \<noteq> Some Dir \<longrightarrow>
           (\<exists>e. outcome (configure w s) = Some (Uncaught e)))"
    using d dn configs_dir_eq [of home] customDir_eq [of home] outside made
      configs_dir_not_made_with_customDir [of home] made_only_main [OF home, of fs0]
      configs_dir_not_made_with_fontDir [of home] third only fault
    by blast
qed

text \<open>On the working host the step ends well from a tree that has the directory, and in
  a fault of the third copy from a tree that has only the top of it. So do the whole runs:
  the one on the working host completes, the one on the host with the bare clone ends in
  the exception of the third copy.\<close>

theorem third_copy_needs_cloned_configs_dir_witness:
  "HOME working_host = Some ''/home/u''
   \<and> outcome (configure working_host (initial (cloned_tree installer_files))) = None
   \<and> files (initial (cloned_tree installer_files)) (configs_dir ''/home/u'') = Some Dir
   \<and> files (initial installer_files) (configs_dir ''/home/u'') \<noteq> Some Dir
   \<and> outcome (configure working_host (initial installer_files))
       = Some (Uncaught ''copyFileSync'')
   \<and> outcome (copy_config working_host (configFiles working_host ''/home/u'' ! 2)
                (initial installer_files)) = Some (Uncaught ''copyFileSync'')
   \<and> made_dirs (drop (length (trace (initial installer_files)))
                 (trace (final (configure working_host (initial installer_files)))))
       = [customDir ''/home/u'']
   \<and> made_only {fontDir ''/home/u'', customDir ''/home/u''}
        (final (main working_host installer_files))
   \<and> outcome (main working_host installer_files) = None
   \<and> outcome (main bare_clone_host installer_files) = Some (Uncaught ''copyFileSync'')"
proof -
  note eval = working_host_def initial_def installer_files_def cloned_tree_def
    home_u_paths home_u_configs dirname_def ancestors_def
    existsSync_def mkdirSync_recursive_def copyFileSync_def copy_config_def configure_def
    Let_def
  have h: "HOME working_host = Some ''/home/u''" by (simp add: working_host_def)
  have ok: "outcome (configure working_host (initial (cloned_tree installer_files))) = None"
    by (simp add: eval)
  have bad: "files (initial installer_files) (configs_dir ''/home/u'') \<noteq> Some Dir"
    by (simp add: initial_def installer_files_def home_u_configs)
  have absent: "\<not> existsSync (customDir ''/home/u'') (initial installer_files)"
    by (simp add: existsSync_def initial_def installer_files_def home_u_paths)
  have fault: "outcome (configure working_host (initial installer_files))
       = Some (Uncaught ''copyFileSync'')"
    by (simp add: eval)
  note good = third_copy_needs_cloned_configs_dir
    [of working_host "''/home/u''" "initial (cloned_tree installer_files)" installer_files]
  note poor = third_copy_needs_cloned_configs_dir
    [of working_host "''/home/u''" "initial installer_files" installer_files]
  from good h ok
  have a: "files (initial (cloned_tree installer_files)) (configs_dir ''/home/u'') = Some Dir"
    by blast
  from poor h bad
  have b: "outcome (copy_config working_host (configFiles working_host ''/home/u'' ! 2)
                (initial installer_files)) = Some (Uncaught ''copyFileSync'')"
    by blast
  from poor h
  have "made_dirs (drop (length (trace (initial installer_files)))
                 (trace (final (configure working_host (initial installer_files)))))
       = (if existsSync (customDir ''/home/u'') (initial installer_files) then []
          else [customDir ''/home/u''])"
    by blast
  with absent
  have c: "made_dirs (drop (length (trace (initial installer_files)))
                 (trace (final (configure working_host (initial installer_files)))))
       = [customDir ''/home/u'']"
    by simp
  from poor h
  have d: "made_only {fontDir ''/home/u'', customDir ''/home/u''}
        (final (main working_host installer_files))"
    by blast
  note whole = eval bare_clone_host_def fontZip_def fontUrl_def
    newline_def trim_def js_whitespace_def below_def rmdirSync_recursive_def unlinkSync_def
    execSync_def runCommand_def check_prereq_def prerequisites_def gate_def
    editor_install_def font_install_def distribution_setup_def lsp_install_def finish_def
    provisioning_def main_def
  have e: "outcome (main working_host installer_files) = None"
    by (simp add: whole)
  have f: "outcome (main bare_clone_host installer_files) = Some (Uncaught ''copyFileSync'')"
    by (simp add: whole)
  show ?thesis using h ok a bad fault b c d e f by blast
qed

end
